theory Spec2Isabelle
  imports Complex_Main "HOL-Library.Multiset"
begin

section \<open>Values, errors and calls into code outside the core\<close>

text \<open>
  JavaScript values as far as the engine, the run loop, the event bus, the registry and
  the game objects handle them. Numbers are modelled as reals (no NaN, no rounding).
  An entity, a collision pair, the PhysicsEngine and its Matter world are references.
\<close>

datatype jsval =
    JUndefined
  | JNull
  | JBool bool
  | JNum real
  | JStr string
  | JObj "(string \<times> jsval) list"
  | JEntity nat
  | JPairRef nat
  | JEngine
  | JWorld

text \<open>A template literal keeps its interpolated values as they are.\<close>

datatype msgpart = Lit string | Val jsval

datatype error = Error "msgpart list" | TypeError "msgpart list"

text \<open>
  Calls that leave the core are recorded in a trace, oldest first: an event listener
  called with its data, a method of a game object called with its argument list,
  Matter's \<open>Engine.update\<close> called with a time step, and the render callback.
\<close>

datatype call =
    Listener nat jsval
  | Hook nat string "jsval list"
  | Integrate real
  | Render

datatype logline = ConsoleError "msgpart list" error | ConsoleWarn "msgpart list"

section \<open>Object literals, operators and calls\<close>

text \<open>An object literal is the list of its own properties, in insertion order.\<close>

definition js_prop :: "string \<Rightarrow> (string \<times> jsval) list \<Rightarrow> jsval" where
  "js_prop k ps = (case map_of ps k of None \<Rightarrow> JUndefined | Some v \<Rightarrow> v)"

text \<open>
  \<open>{...ps, k: v}\<close>, and \<open>Map.prototype.set\<close>: a key that is there keeps its place and gets
  the new value, a new key goes to the end.
\<close>

fun assoc_set :: "'k \<Rightarrow> 'v \<Rightarrow> ('k \<times> 'v) list \<Rightarrow> ('k \<times> 'v) list" where
  "assoc_set k v [] = [(k, v)]"
| "assoc_set k v ((k', v') # ps) = (if k' = k then (k, v) # ps else (k', v') # assoc_set k v ps)"

text \<open>\<open>v.k\<close>, which throws on \<open>undefined\<close> and \<open>null\<close>, and \<open>v?.k\<close>, which does not.\<close>

definition get_prop :: "string \<Rightarrow> jsval \<Rightarrow> error + jsval" where
  "get_prop k v =
     (case v of
        JObj ps \<Rightarrow> Inr (js_prop k ps)
      | JUndefined \<Rightarrow> Inl (TypeError [Lit ''Cannot read properties of undefined''])
      | JNull \<Rightarrow> Inl (TypeError [Lit ''Cannot read properties of null''])
      | _ \<Rightarrow> Inr JUndefined)"

definition opt_prop :: "string \<Rightarrow> jsval \<Rightarrow> jsval" where
  "opt_prop k v = (case v of JObj ps \<Rightarrow> js_prop k ps | _ \<Rightarrow> JUndefined)"

definition truthy :: "jsval \<Rightarrow> bool" where
  "truthy v =
     (case v of
        JUndefined \<Rightarrow> False
      | JNull \<Rightarrow> False
      | JBool b \<Rightarrow> b
      | JNum r \<Rightarrow> r \<noteq> 0
      | JStr s \<Rightarrow> s \<noteq> []
      | _ \<Rightarrow> True)"

text \<open>\<open>a || b\<close> and \<open>a ?? b\<close>.\<close>

definition js_or :: "jsval \<Rightarrow> jsval \<Rightarrow> jsval" where
  "js_or a b = (if truthy a then a else b)"

definition js_nullish :: "jsval \<Rightarrow> jsval \<Rightarrow> jsval" where
  "js_nullish a b = (if a = JUndefined \<or> a = JNull then b else a)"

text \<open>
  A call binds the i-th declared parameter to the i-th argument, and to \<open>undefined\<close> when
  there is none; further arguments are bound to nothing.
\<close>

definition param :: "nat \<Rightarrow> jsval list \<Rightarrow> jsval" where
  "param i args = (if i < length args then args ! i else JUndefined)"

section \<open>The data model\<close>

text \<open>A Matter body, by the fields the engine reads and writes; bodies are keyed by \<open>body.id\<close>.\<close>

record body =
  position :: "real \<times> real"
  angle :: real
  velocity :: "real \<times> real"
  angularVelocity :: real
  isSleeping :: bool
  isStatic :: bool
  label :: string

text \<open>A collision pair of Matter: its own id and the ids of its two bodies.\<close>

record pair =
  pair_id :: nat
  bodyA :: nat
  bodyB :: nat

text \<open>
  A game object as the engine sees it while the object stays as it is: its id, its type,
  the ids of the bodies and constraints its getters return, what \<open>serialize()\<close>
  returns, and which optional methods it has. Game objects that change between two calls
  of the engine (a balloon that pops, an object that has been disposed of) are the subject
  of the section on game objects by reference below, where \<open>addObject\<close>, \<open>removeObject\<close>
  and \<open>clear\<close> read the getters at every call.
\<close>

record entity =
  eid :: nat
  etype :: string
  bodies :: "nat list"
  constraints :: "nat list"
  serialized :: jsval
  hasOnBeforeUpdate :: bool
  hasOnAfterUpdate :: bool
  hasOnCollision :: bool
  hasDispose :: bool

record bodyState =
  bs_id :: nat
  bs_position :: "real \<times> real"
  bs_angle :: real
  bs_velocity :: "real \<times> real"
  bs_angularVelocity :: real

record snap =
  snap_serialized :: jsval
  bodyStates :: "bodyState list"

text \<open>
  PhysicsEngine. \<open>world_bodies\<close> and \<open>world_constraints\<close> are the arrays of the Matter
  composite \<open>this.world\<close>; \<open>objects\<close> is the Set \<open>_objects\<close> in insertion order;
  \<open>bodyToObject\<close> is the Map \<open>_bodyToObject\<close>; \<open>snapshot\<close> is \<open>_snapshot\<close> (None for null).
\<close>

record engine =
  width :: real
  height :: real
  gravity :: "real \<times> real"
  enableSleeping :: bool
  timeScale :: real
  world_bodies :: "nat list"
  world_constraints :: "nat list"
  objects :: "entity list"
  bodyToObject :: "nat \<rightharpoonup> entity"
  snapshot :: "snap list option"

datatype LoopState = STOPPED | RUNNING | PAUSED

record gameloop =
  loop_state :: LoopState
  rafId :: "nat option"
  elapsed :: real
  lastTimestamp :: real
  speed :: real
  maxDt :: real

text \<open>
  The code the core calls but does not contain: the listeners subscribed to the event
  bus (a listener may throw), the methods of the game objects, the render callback and
  Matter's solver. They act on a state \<open>'u\<close> of their own, and a method of a game object
  may also move bodies. Object methods and the render callback are taken to return
  normally, and none of this code subscribes, unsubscribes or changes the engine's
  bookkeeping while the core is running. (Listeners that call the bus are the subject of
  the section on the EventBus.)
\<close>

record 'u code =
  listener_code :: "nat \<Rightarrow> jsval \<Rightarrow> 'u \<Rightarrow> error option \<times> 'u"
  hook_code :: "nat \<Rightarrow> string \<Rightarrow> jsval list \<Rightarrow> 'u \<times> (nat \<Rightarrow> body) \<Rightarrow> 'u \<times> (nat \<Rightarrow> body)"
  render_code :: "'u \<Rightarrow> 'u"
  solver_code :: "real \<Rightarrow> engine \<Rightarrow> (nat \<Rightarrow> body) \<Rightarrow> (nat \<Rightarrow> body) \<times> pair list"

text \<open>
  The whole machine: the state of outside code, the trace, the console, the listeners
  of the event bus (for each event name the functions of its Set, in insertion order),
  the bodies by id, the PhysicsEngine, the GameLoop and the host's pending animation
  frames.
\<close>

record 'u machine =
  user :: 'u
  trace :: "call list"
  console :: "logline list"
  listeners :: "string \<rightharpoonup> nat list"
  heap :: "nat \<Rightarrow> body"
  physics :: engine
  gloop :: gameloop
  raf_next :: nat
  raf_pending :: "nat list"

section \<open>Statements that may throw\<close>

text \<open>A statement returns the thrown error, if any, and the state it leaves.\<close>

type_synonym 's comp = "'s \<Rightarrow> error option \<times> 's"

definition try_catch :: "'s comp \<Rightarrow> (error \<Rightarrow> 's comp) \<Rightarrow> 's comp" where
  "try_catch blk handler s =
     (case blk s of
        (None, s') \<Rightarrow> (None, s')
      | (Some err, s') \<Rightarrow> handler err s')"

fun for_of :: "'a list \<Rightarrow> ('a \<Rightarrow> 's comp) \<Rightarrow> 's comp" where
  "for_of [] blk s = (None, s)"
| "for_of (x # xs) blk s =
     (case blk x s of
        (None, s') \<Rightarrow> for_of xs blk s'
      | (Some err, s') \<Rightarrow> (Some err, s'))"

section \<open>EventBus\<close>

text \<open>
  A Set of functions, as ECMAScript specifies it: the list of its entries in insertion
  order. \<open>add\<close> appends a value that is not there, \<open>delete\<close> empties the entry of the value
  and leaves the others where they are, and \<open>size\<close> counts the entries that are not empty.
  An iteration that is under way goes by position, so it passes over an entry emptied
  ahead of it and reaches an entry appended meanwhile. Functions are told apart by a
  number.
\<close>

type_synonym fnset = "nat option list"

definition Set_add :: "nat \<Rightarrow> fnset \<Rightarrow> fnset" where
  "Set_add f es = (if Some f \<in> set es then es else es @ [Some f])"

definition Set_delete :: "nat \<Rightarrow> fnset \<Rightarrow> fnset" where
  "Set_delete f es = map (\<lambda>e. if e = Some f then None else e) es"

definition Set_size :: "fnset \<Rightarrow> nat" where
  "Set_size es = length (filter (\<lambda>e. e \<noteq> None) es)"

definition Set_values :: "fnset \<Rightarrow> nat list" where
  "Set_values es = concat (map (\<lambda>e. case e of None \<Rightarrow> [] | Some f \<Rightarrow> [f]) es)"

text \<open>
  The bus: the Map \<open>_listeners\<close> from an event name to its Set, the Sets by reference
  (\<open>bus_next\<close> is the reference that the next \<open>new Set()\<close> gets), and what the listeners
  leave behind: their own state, the trace of the calls made to them, and the console.
\<close>

record 'u bus =
  bus_user :: 'u
  bus_trace :: "call list"
  bus_console :: "logline list"
  bus_listeners :: "string \<rightharpoonup> nat"
  bus_sets :: "nat \<Rightarrow> fnset"
  bus_next :: nat


definition EventBus_on :: "string \<Rightarrow> nat \<Rightarrow> 'u bus \<Rightarrow> 'u bus" where
  "EventBus_on event callback b =
     (let b1 = (if bus_listeners b event = None
                then b\<lparr>bus_listeners := (bus_listeners b)(event \<mapsto> bus_next b),
                       bus_sets := (bus_sets b)(bus_next b := []),
                       bus_next := bus_next b + 1\<rparr>
                else b)
      in case bus_listeners b1 event of
           None \<Rightarrow> b1
         | Some s \<Rightarrow> b1\<lparr>bus_sets := (bus_sets b1)(s := Set_add callback (bus_sets b1 s))\<rparr>)"

definition EventBus_off :: "string \<Rightarrow> nat \<Rightarrow> 'u bus \<Rightarrow> 'u bus" where
  "EventBus_off event callback b =
     (case bus_listeners b event of
        None \<Rightarrow> b
      | Some s \<Rightarrow>
          (let b1 = b\<lparr>bus_sets := (bus_sets b)(s := Set_delete callback (bus_sets b s))\<rparr>
           in if Set_size (bus_sets b1 s) = 0
              then b1\<lparr>bus_listeners := (bus_listeners b1)(event := None)\<rparr>
              else b1))"

text \<open>\<open>clear(event)\<close>: a missing event name and the empty string both clear every event.\<close>

definition EventBus_clear :: "string option \<Rightarrow> 'u bus \<Rightarrow> 'u bus" where
  "EventBus_clear event b =
     (case event of
        Some ev \<Rightarrow>
          (if ev \<noteq> [] then b\<lparr>bus_listeners := (bus_listeners b)(ev := None)\<rparr>
           else b\<lparr>bus_listeners := Map.empty\<rparr>)
      | None \<Rightarrow> b\<lparr>bus_listeners := Map.empty\<rparr>)"

text \<open>
  What a listener may do to the bus while it runs. A listener is code outside the bus:
  called with the data, it changes its state, calls the bus in some order, and returns or
  throws. The wrapper that \<open>once\<close> subscribes is such a listener: its first call is
  \<open>off(event, wrapper)\<close>.
\<close>

datatype bus_op = On string nat | Off string nat | Clear "string option" | Emit string jsval

type_synonym 'u listener = "nat \<Rightarrow> jsval \<Rightarrow> 'u \<Rightarrow> 'u \<times> bus_op list \<times> error option"

text \<open>
  \<open>emit\<close>, with the calls it makes. \<open>emit_walk\<close> is its \<open>for (const callback of listeners)\<close>
  over the Set \<open>s\<close>, standing at position \<open>i\<close>; the body of the loop is the \<open>try\<close> with its
  \<open>catch\<close>. A listener that subscribes a new function on every call keeps the loop going
  for ever, and a listener may emit in turn: the first argument bounds the number of loop
  steps, nested ones included, and \<open>None\<close> says that the bound was reached.
\<close>

function (sequential) call_fn :: "nat \<Rightarrow> 'u listener \<Rightarrow> nat \<Rightarrow> jsval \<Rightarrow> 'u bus \<Rightarrow> (error option \<times> 'u bus) option"
and run_bus_ops :: "nat \<Rightarrow> 'u listener \<Rightarrow> bus_op list \<Rightarrow> 'u bus \<Rightarrow> (error option \<times> 'u bus) option"
and EventBus_emit :: "nat \<Rightarrow> 'u listener \<Rightarrow> string \<Rightarrow> jsval \<Rightarrow> 'u bus \<Rightarrow> (error option \<times> 'u bus) option"
and emit_walk :: "nat \<Rightarrow> 'u listener \<Rightarrow> string \<Rightarrow> jsval \<Rightarrow> nat \<Rightarrow> nat \<Rightarrow> 'u bus \<Rightarrow> (error option \<times> 'u bus) option"
where
  "call_fn fuel L callback data b =
     (let b1 = b\<lparr>bus_trace := bus_trace b @ [Listener callback data]\<rparr>;
          r = L callback data (bus_user b1)
      in case run_bus_ops fuel L (fst (snd r)) (b1\<lparr>bus_user := fst r\<rparr>) of
           None \<Rightarrow> None
         | Some (Some err, b2) \<Rightarrow> Some (Some err, b2)
         | Some (None, b2) \<Rightarrow> Some (snd (snd r), b2))"
| "run_bus_ops fuel L [] b = Some (None, b)"
| "run_bus_ops fuel L (On event f # ops) b = run_bus_ops fuel L ops (EventBus_on event f b)"
| "run_bus_ops fuel L (Off event f # ops) b = run_bus_ops fuel L ops (EventBus_off event f b)"
| "run_bus_ops fuel L (Clear event # ops) b = run_bus_ops fuel L ops (EventBus_clear event b)"
| "run_bus_ops fuel L (Emit event data # ops) b =
     (case EventBus_emit fuel L event data b of
        None \<Rightarrow> None
      | Some (Some err, b1) \<Rightarrow> Some (Some err, b1)
      | Some (None, b1) \<Rightarrow> run_bus_ops fuel L ops b1)"
| "EventBus_emit fuel L event data b =
     (case bus_listeners b event of
        None \<Rightarrow> Some (None, b)
      | Some s \<Rightarrow> emit_walk fuel L event data s 0 b)"
| "emit_walk 0 L event data s i b = None"
| \<open>emit_walk (Suc fuel) L event data s i b =
     (if length (bus_sets b s) \<le> i then Some (None, b)
      else
        (case bus_sets b s ! i of
           None \<Rightarrow> emit_walk fuel L event data s (Suc i) b
         | Some callback \<Rightarrow>
             (case call_fn fuel L callback data b of
                None \<Rightarrow> None
              | Some (None, b1) \<Rightarrow> emit_walk fuel L event data s (Suc i) b1
              | Some (Some err, b1) \<Rightarrow>
                  emit_walk fuel L event data s (Suc i)
                    (b1\<lparr>bus_console := bus_console b1 @
                         [ConsoleError [Lit ''[EventBus] Error in listener for "'',
                                        Val (JStr event), Lit ''":''] err]\<rparr>))))\<close>
  by pat_completeness auto

termination
  by (relation
      "measures
         [\<lambda>x. case x of
                 Inl (Inl (fuel, _)) \<Rightarrow> fuel | Inl (Inr (fuel, _)) \<Rightarrow> fuel
               | Inr (Inl (fuel, _)) \<Rightarrow> fuel | Inr (Inr (fuel, _)) \<Rightarrow> fuel,
          \<lambda>x. case x of
                 Inl (Inl _) \<Rightarrow> 3 | Inl (Inr _) \<Rightarrow> 2 | Inr (Inl _) \<Rightarrow> 1 | Inr (Inr _) \<Rightarrow> 0,
          \<lambda>x. case x of Inl (Inr (_, _, ops, _)) \<Rightarrow> length ops | _ \<Rightarrow> 0]")
    simp_all

text \<open>
  What every call of the bus keeps of a Set while an iteration over it is under way: the
  entries stay where they are, each with its value or emptied, and new ones come after
  them.
\<close>

definition entries_kept :: "fnset \<Rightarrow> fnset \<Rightarrow> bool" where
  "entries_kept es es' =
     (length es \<le> length es' \<and> (\<forall>j < length es. es' ! j = es ! j \<or> es' ! j = None))"

text \<open>From one state of the bus to a later one: Sets are kept, the trace is extended.\<close>

definition bus_grows :: "'u bus \<Rightarrow> 'u bus \<Rightarrow> bool" where
  "bus_grows b b' =
     (bus_next b \<le> bus_next b' \<and>
      (\<forall>s < bus_next b. entries_kept (bus_sets b s) (bus_sets b' s)) \<and>
      (\<exists>calls. bus_trace b' = bus_trace b @ calls))"



text \<open>A bus whose Map holds only Sets that \<open>on\<close> has made.\<close>

definition bus_ok :: "'u bus \<Rightarrow> bool" where
  "bus_ok b = (\<forall>event s. bus_listeners b event = Some s \<longrightarrow> s < bus_next b)"

section \<open>The bus under the engine and the run loop\<close>

text \<open>
  The engine and the run loop only emit, and the listeners they reach are taken to leave
  the bus alone (\<open>listener_code\<close> above). The machine therefore keeps, for each event, the
  functions of its Set in insertion order, and an emit calls them one after the other.
  \<open>set_add\<close> is \<open>Set.prototype.add\<close> on such a list.
\<close>

definition set_add :: "'a \<Rightarrow> 'a list \<Rightarrow> 'a list" where
  "set_add x xs = (if x \<in> set xs then xs else xs @ [x])"

text \<open>\<open>callback(data)\<close>: the call is recorded, then the listener's code runs.\<close>

definition call_listener :: "'u code \<Rightarrow> nat \<Rightarrow> jsval \<Rightarrow> 'u machine comp" where
  "call_listener K callback data m =
     (let m1 = m\<lparr>trace := trace m @ [Listener callback data]\<rparr>;
          r = listener_code K callback data (user m1)
      in (fst r, m1\<lparr>user := snd r\<rparr>))"

definition console_error :: "msgpart list \<Rightarrow> error \<Rightarrow> 'u machine comp" where
  "console_error msg err m = (None, m\<lparr>console := console m @ [ConsoleError msg err]\<rparr>)"

definition deliver :: "'u code \<Rightarrow> string \<Rightarrow> jsval \<Rightarrow> 'u machine comp" where
  \<open>deliver K event data m =
     (case listeners m event of
        None \<Rightarrow> (None, m)
      | Some cbs \<Rightarrow>
          for_of cbs
            (\<lambda>callback.
               try_catch (call_listener K callback data)
                 (\<lambda>err. console_error
                    [Lit ''[EventBus] Error in listener for "'', Val (JStr event), Lit ''":''] err))
            m)\<close>

text \<open>
  \<open>eventBus.emit(...)\<close> used as a statement by the engine and the run loop: the state
  that the emit leaves.
\<close>

definition emit :: "'u code \<Rightarrow> string \<Rightarrow> jsval \<Rightarrow> 'u machine \<Rightarrow> 'u machine" where
  "emit K event data m = snd (deliver K event data m)"

text \<open>
  The two descriptions side by side: a listener of the machine as a listener of the bus,
  which calls the bus not at all, and the bus as the machine keeps it.
\<close>

definition leaves_bus_alone :: "'u code \<Rightarrow> 'u listener" where
  "leaves_bus_alone K callback data u =
     (let r = listener_code K callback data u in (snd r, [], fst r))"

definition bus_view :: "'u bus \<Rightarrow> 'u machine \<Rightarrow> 'u machine" where
  "bus_view b m =
     m\<lparr>listeners := (\<lambda>event. map_option (\<lambda>s. Set_values (bus_sets b s)) (bus_listeners b event)),
       user := bus_user b, trace := bus_trace b, console := bus_console b\<rparr>"

section \<open>PhysicsEngine\<close>

record engine_opts =
  gravityX :: "real option"
  gravityY :: "real option"
  opt_enableSleeping :: "bool option"

text \<open>\<open>Bodies.rectangle(x, y, w, h, {isStatic: true, label})\<close>; the shape is not modelled.\<close>

definition wall_body :: "real \<Rightarrow> real \<Rightarrow> string \<Rightarrow> body" where
  "wall_body x y lbl =
     \<lparr>position = (x, y), angle = 0, velocity = (0, 0), angularVelocity = 0,
      isSleeping = False, isStatic = True, label = lbl\<rparr>"

text \<open>
  \<open>_addBoundaries\<close>. Matter gives each new body a fresh id; the ids of the floor, the
  left wall, the right wall and the ceiling are parameters. \<open>Composite.add\<close> appends to
  the composite's array of bodies.
\<close>

definition addBoundaries :: "nat \<Rightarrow> nat \<Rightarrow> nat \<Rightarrow> nat \<Rightarrow> 'u machine \<Rightarrow> 'u machine" where
  "addBoundaries fl lf rt cl m =
     (let wallThickness = 50;
          w = width (physics m);
          h = height (physics m);
          hp = (heap m)
            (fl := wall_body (w / 2) (h + wallThickness / 2) ''wall-floor'',
             lf := wall_body (- wallThickness / 2) (h / 2) ''wall-left'',
             rt := wall_body (w + wallThickness / 2) (h / 2) ''wall-right'',
             cl := wall_body (w / 2) (- wallThickness / 2) ''wall-ceiling'')
      in m\<lparr>heap := hp,
           physics := (physics m)\<lparr>world_bodies := world_bodies (physics m) @ [fl, lf, rt, cl]\<rparr>\<rparr>)"

text \<open>
  The constructor. \<open>_setupCollisionEvents\<close> registers the collision handler with Matter;
  the handler is \<open>collisionStart\<close> below, which \<open>Engine_update\<close> runs.
\<close>

definition PhysicsEngine_new ::
  "real \<Rightarrow> real \<Rightarrow> engine_opts \<Rightarrow> nat \<Rightarrow> nat \<Rightarrow> nat \<Rightarrow> nat \<Rightarrow> 'u machine \<Rightarrow> 'u machine" where
  "PhysicsEngine_new w h opts fl lf rt cl m =
     addBoundaries fl lf rt cl
       (m\<lparr>physics :=
           \<lparr>width = w, height = h,
            gravity = (case gravityX opts of None \<Rightarrow> 0 | Some g \<Rightarrow> g,
                       case gravityY opts of None \<Rightarrow> 1 | Some g \<Rightarrow> g),
            enableSleeping = (case opt_enableSleeping opts of None \<Rightarrow> True | Some b \<Rightarrow> b),
            timeScale = 1,
            world_bodies = [], world_constraints = [],
            objects = [], bodyToObject = Map.empty, snapshot = None\<rparr>\<rparr>)"

text \<open>A method of a game object is called: the call is recorded, then its code runs.\<close>

definition call_hook :: "'u code \<Rightarrow> entity \<Rightarrow> string \<Rightarrow> jsval list \<Rightarrow> 'u machine \<Rightarrow> 'u machine" where
  "call_hook K obj method args m =
     (let r = hook_code K (eid obj) method args (user m, heap m)
      in m\<lparr>trace := trace m @ [Hook (eid obj) method args], user := fst r, heap := snd r\<rparr>)"

text \<open>
  \<open>Composite.add(this.world, body)\<close> pushes the body onto the composite's array, whether or
  not it is there already; \<open>_bodyToObject.set\<close> registers its owner.
\<close>

definition add_body :: "entity \<Rightarrow> nat \<Rightarrow> engine \<Rightarrow> engine" where
  "add_body gameObject b p =
     p\<lparr>world_bodies := world_bodies p @ [b],
       bodyToObject := (bodyToObject p)(b \<mapsto> gameObject)\<rparr>"

definition add_constraint :: "nat \<Rightarrow> engine \<Rightarrow> engine" where
  "add_constraint c p = p\<lparr>world_constraints := world_constraints p @ [c]\<rparr>"

definition addObject :: "'u code \<Rightarrow> entity \<Rightarrow> 'u machine \<Rightarrow> 'u machine" where
  "addObject K gameObject m =
     (let p1 = (physics m)\<lparr>objects := set_add gameObject (objects (physics m))\<rparr>;
          p2 = fold (add_body gameObject) (bodies gameObject) p1;
          p3 = fold add_constraint (constraints gameObject) p2
      in emit K ''physics:object-added'' (JEntity (eid gameObject)) (m\<lparr>physics := p3\<rparr>))"

text \<open>
  \<open>Composite.remove\<close> looks the body up in the composite's array with \<open>indexOf\<close> and
  removes that one element, if any.
\<close>

definition remove_constraint :: "nat \<Rightarrow> engine \<Rightarrow> engine" where
  "remove_constraint c p = p\<lparr>world_constraints := remove1 c (world_constraints p)\<rparr>"

definition remove_body :: "nat \<Rightarrow> engine \<Rightarrow> engine" where
  "remove_body b p =
     p\<lparr>world_bodies := remove1 b (world_bodies p),
       bodyToObject := (bodyToObject p)(b := None)\<rparr>"

definition removeObject :: "'u code \<Rightarrow> entity \<Rightarrow> 'u machine \<Rightarrow> 'u machine" where
  "removeObject K gameObject m =
     (let p1 = fold remove_constraint (constraints gameObject) (physics m);
          p2 = fold remove_body (bodies gameObject) p1;
          p3 = p2\<lparr>objects := removeAll gameObject (objects p2)\<rparr>;
          m1 = m\<lparr>physics := p3\<rparr>;
          m2 = (if hasDispose gameObject then call_hook K gameObject ''dispose'' [] m1 else m1)
      in emit K ''physics:object-removed'' (JEntity (eid gameObject)) m2)"

text \<open>\<open>clear\<close> walks a copy of the Set taken before the first removal.\<close>

definition clear :: "'u code \<Rightarrow> 'u machine \<Rightarrow> 'u machine" where
  "clear K m = fold (removeObject K) (objects (physics m)) m"

text \<open>
  The handler of Matter's \<open>collisionStart\<close> event, for one pair: both bodies are looked
  up in \<open>_bodyToObject\<close>; a body that is not there gives \<open>undefined\<close> and the pair is
  passed over.
\<close>

definition collide :: "'u code \<Rightarrow> pair \<Rightarrow> 'u machine \<Rightarrow> 'u machine" where
  "collide K p m =
     (case bodyToObject (physics m) (bodyA p) of
        None \<Rightarrow> m
      | Some objA \<Rightarrow>
          (case bodyToObject (physics m) (bodyB p) of
             None \<Rightarrow> m
           | Some objB \<Rightarrow>
               (let m1 = (if hasOnCollision objA
                          then call_hook K objA ''onCollision''
                                 [JEntity (eid objB), JPairRef (pair_id p)] m
                          else m);
                    m2 = (if hasOnCollision objB
                          then call_hook K objB ''onCollision''
                                 [JEntity (eid objA), JPairRef (pair_id p)] m1
                          else m1)
                in emit K ''physics:collision''
                     (JObj [(''objectA'', JEntity (eid objA)), (''objectB'', JEntity (eid objB)),
                            (''pair'', JPairRef (pair_id p))]) m2)))"

definition collisionStart :: "'u code \<Rightarrow> pair list \<Rightarrow> 'u machine \<Rightarrow> 'u machine" where
  "collisionStart K pairs m = fold (collide K) pairs m"

text \<open>
  \<open>Engine.update(this.engine, dt)\<close>: Matter's solver moves the bodies and reports the
  pairs whose contact started in this update; the \<open>collisionStart\<close> handler runs on them.
\<close>

definition Engine_update :: "'u code \<Rightarrow> real \<Rightarrow> 'u machine \<Rightarrow> 'u machine" where
  "Engine_update K dt m =
     (let r = solver_code K dt (physics m) (heap m)
      in collisionStart K (snd r) (m\<lparr>trace := trace m @ [Integrate dt], heap := fst r\<rparr>))"

text \<open>\<open>obj.onBeforeUpdate(dt, this)\<close> and \<open>obj.onAfterUpdate(dt, this)\<close>, for a method that exists.\<close>

definition before_update :: "'u code \<Rightarrow> real \<Rightarrow> entity \<Rightarrow> 'u machine \<Rightarrow> 'u machine" where
  "before_update K dt obj m =
     (if hasOnBeforeUpdate obj
      then call_hook K obj ''onBeforeUpdate'' [JNum dt, JEngine] m
      else m)"

definition after_update :: "'u code \<Rightarrow> real \<Rightarrow> entity \<Rightarrow> 'u machine \<Rightarrow> 'u machine" where
  "after_update K dt obj m =
     (if hasOnAfterUpdate obj
      then call_hook K obj ''onAfterUpdate'' [JNum dt, JEngine] m
      else m)"

definition step :: "'u code \<Rightarrow> real \<Rightarrow> 'u machine \<Rightarrow> 'u machine" where
  "step K dt m =
     (let m1 = fold (before_update K dt) (objects (physics m)) m;
          m2 = Engine_update K dt m1
      in fold (after_update K dt) (objects (physics m2)) m2)"


definition capture :: "(nat \<Rightarrow> body) \<Rightarrow> nat \<Rightarrow> bodyState" where
  "capture h b =
     \<lparr>bs_id = b, bs_position = position (h b), bs_angle = angle (h b),
      bs_velocity = velocity (h b), bs_angularVelocity = angularVelocity (h b)\<rparr>"

definition snap_of :: "(nat \<Rightarrow> body) \<Rightarrow> entity \<Rightarrow> snap" where
  "snap_of h obj =
     \<lparr>snap_serialized = serialized obj, bodyStates = map (capture h) (bodies obj)\<rparr>"

definition takeSnapshot :: "'u machine \<Rightarrow> 'u machine" where
  "takeSnapshot m =
     m\<lparr>physics := (physics m)\<lparr>snapshot := Some (map (snap_of (heap m)) (objects (physics m)))\<rparr>\<rparr>"

text \<open>
  \<open>Body.setPosition\<close>, \<open>Body.setAngle\<close>, \<open>Body.setVelocity\<close>, \<open>Body.setAngularVelocity\<close> and
  \<open>Sleeping.set(body, false)\<close> on one body.
\<close>

definition set_body :: "bodyState \<Rightarrow> body \<Rightarrow> body" where
  "set_body bodyState b =
     b\<lparr>position := bs_position bodyState, angle := bs_angle bodyState,
       velocity := bs_velocity bodyState, angularVelocity := bs_angularVelocity bodyState,
       isSleeping := False\<rparr>"

text \<open>\<open>obj.bodies.find(b => b.id === bodyState.id)\<close>, and the restore when a body is found.\<close>

definition restore_body :: "entity \<Rightarrow> bodyState \<Rightarrow> (nat \<Rightarrow> body) \<Rightarrow> (nat \<Rightarrow> body)" where
  "restore_body obj bodyState h =
     (if bs_id bodyState \<in> set (bodies obj)
      then h(bs_id bodyState := set_body bodyState (h (bs_id bodyState)))
      else h)"

text \<open>The loop over \<open>i < this._snapshot.length && i < objectArray.length\<close>.\<close>

fun restore_loop :: "snap list \<Rightarrow> entity list \<Rightarrow> (nat \<Rightarrow> body) \<Rightarrow> (nat \<Rightarrow> body)" where
  "restore_loop (sn # snaps) (obj # objs) h =
     restore_loop snaps objs (fold (restore_body obj) (bodyStates sn) h)"
| "restore_loop [] objs h = h"
| "restore_loop snaps [] h = h"

definition restoreSnapshot :: "'u machine \<Rightarrow> 'u machine" where
  "restoreSnapshot m =
     (case snapshot (physics m) of
        None \<Rightarrow> m
      | Some snaps \<Rightarrow> m\<lparr>heap := restore_loop snaps (objects (physics m)) (heap m)\<rparr>)"



definition getObjects :: "'u machine \<Rightarrow> entity list" where
  "getObjects m = objects (physics m)"

definition getObjectForBody :: "'u machine \<Rightarrow> nat \<Rightarrow> entity option" where
  "getObjectForBody m b = bodyToObject (physics m) b"

section \<open>GameLoop\<close>

definition GameLoop_new :: "'u machine \<Rightarrow> 'u machine" where
  "GameLoop_new m =
     m\<lparr>gloop := \<lparr>loop_state = STOPPED, rafId = None, elapsed = 0, lastTimestamp = 0,
                  speed = 1, maxDt = 50\<rparr>\<rparr>"

text \<open>The host's \<open>requestAnimationFrame\<close> and \<open>cancelAnimationFrame\<close>.\<close>

definition requestAnimationFrame :: "'u machine \<Rightarrow> nat \<times> 'u machine" where
  "requestAnimationFrame m =
     (raf_next m, m\<lparr>raf_next := raf_next m + 1, raf_pending := raf_pending m @ [raf_next m]\<rparr>)"

definition cancelAnimationFrame :: "nat \<Rightarrow> 'u machine \<Rightarrow> 'u machine" where
  "cancelAnimationFrame h m = m\<lparr>raf_pending := removeAll h (raf_pending m)\<rparr>"

definition schedule_frame :: "'u machine \<Rightarrow> 'u machine" where
  "schedule_frame m =
     (let r = requestAnimationFrame m
      in (snd r)\<lparr>gloop := (gloop (snd r))\<lparr>rafId := Some (fst r)\<rparr>\<rparr>)"

definition cancel_frame :: "'u machine \<Rightarrow> 'u machine" where
  "cancel_frame m =
     (case rafId (gloop m) of
        None \<Rightarrow> m
      | Some h \<Rightarrow> (cancelAnimationFrame h m)\<lparr>gloop := (gloop m)\<lparr>rafId := None\<rparr>\<rparr>)"

definition call_render :: "'u code \<Rightarrow> 'u machine \<Rightarrow> 'u machine" where
  "call_render K m = m\<lparr>trace := trace m @ [Render], user := render_code K (user m)\<rparr>"

definition play :: "'u code \<Rightarrow> 'u machine \<Rightarrow> 'u machine" where
  "play K m =
     (if loop_state (gloop m) = RUNNING then m
      else
        (let m1 = (if loop_state (gloop m) = STOPPED
                   then (let s = takeSnapshot m in s\<lparr>gloop := (gloop s)\<lparr>elapsed := 0\<rparr>\<rparr>)
                   else m);
             m2 = m1\<lparr>gloop := (gloop m1)\<lparr>loop_state := RUNNING, lastTimestamp := 0\<rparr>\<rparr>;
             m3 = schedule_frame m2
         in emit K ''loop:play'' (JObj [(''elapsed'', JNum (elapsed (gloop m3)))]) m3))"




text \<open>The time step of \<open>_frame\<close>, from the timestamp, \<open>_lastTimestamp\<close> and \<open>_maxDt\<close>.\<close>

definition frame_dt :: "real \<Rightarrow> real \<Rightarrow> real \<Rightarrow> real" where
  "frame_dt timestamp lastTs cap =
     (let last1 = (if lastTs = 0 then timestamp else lastTs);
          dt = timestamp - last1;
          dt1 = (if dt > cap then cap else dt)
      in if dt1 \<le> 0 then 1667 / 100 else dt1)"

definition frame :: "'u code \<Rightarrow> real \<Rightarrow> 'u machine \<Rightarrow> 'u machine" where
  "frame K timestamp m =
     (if loop_state (gloop m) \<noteq> RUNNING then m
      else
        (let dt = frame_dt timestamp (lastTimestamp (gloop m)) (maxDt (gloop m));
             m1 = m\<lparr>gloop := (gloop m)\<lparr>lastTimestamp := timestamp\<rparr>\<rparr>;
             m2 = step K dt m1;
             m3 = m2\<lparr>gloop := (gloop m2)\<lparr>elapsed := elapsed (gloop m2) + dt\<rparr>\<rparr>;
             m4 = call_render K m3;
             m5 = emit K ''loop:frame''
                    (JObj [(''dt'', JNum dt), (''elapsed'', JNum (elapsed (gloop m4)))]) m4
         in schedule_frame m5))"


section \<open>BaseObject, Ball and Balloon\<close>

text \<open>
  The fields of \<open>BaseObject\<close>. Ids come from the module's counter \<open>_nextId\<close>, which the
  constructors take as an argument.
\<close>

record BaseObject =
  obj_id :: nat
  obj_x :: jsval
  obj_y :: jsval
  obj_angle :: jsval
  obj_isFixed :: jsval
  obj_options :: "(string \<times> jsval) list"

definition BaseObject_new :: "nat \<Rightarrow> jsval \<Rightarrow> jsval \<Rightarrow> (string \<times> jsval) list \<Rightarrow> BaseObject" where
  "BaseObject_new nextId x y options =
     \<lparr>obj_id = nextId, obj_x = x, obj_y = y,
      obj_angle = js_or (js_prop ''angle'' options) (JNum 0),
      obj_isFixed = js_or (js_prop ''isFixed'' options) (JBool False),
      obj_options = options\<rparr>"

text \<open>\<open>BaseObject.serialize()\<close>, with the value of the subclass's \<open>type\<close> getter.\<close>

definition BaseObject_serialize :: "string \<Rightarrow> 'a BaseObject_scheme \<Rightarrow> (string \<times> jsval) list" where
  "BaseObject_serialize ty obj =
     [(''type'', JStr ty), (''x'', obj_x obj), (''y'', obj_y obj), (''angle'', obj_angle obj),
      (''isFixed'', obj_isFixed obj), (''options'', JObj (obj_options obj))]"

text \<open>What \<open>Bodies.circle(x, y, radius, {...})\<close> is given; \<open>Body.setAngle\<close> sets the angle.\<close>

record circle =
  circle_x :: jsval
  circle_y :: jsval
  circle_radius :: jsval
  circle_density :: real
  circle_restitution :: real
  circle_friction :: real
  circle_frictionAir :: real
  circle_label :: "msgpart list"
  circle_angle :: jsval

record preset =
  preset_radius :: real
  preset_density :: real
  preset_restitution :: real
  preset_friction :: real
  preset_color :: string
  preset_highlight :: string
  preset_label :: string

definition bowling :: preset where
  "bowling =
     \<lparr>preset_radius = 18, preset_density = 8 / 1000, preset_restitution = 3 / 10,
      preset_friction = 4 / 10, preset_color = ''#1a1a2e'', preset_highlight = ''#3a3a5e'',
      preset_label = ''Bowling Ball''\<rparr>"

definition VARIANTS :: "(string \<times> preset) list" where
  "VARIANTS =
     [(''bowling'', bowling),
      (''tennis'',
       \<lparr>preset_radius = 12, preset_density = 2 / 1000, preset_restitution = 75 / 100,
        preset_friction = 5 / 10, preset_color = ''#c8e640'', preset_highlight = ''#e0f870'',
        preset_label = ''Tennis Ball''\<rparr>),
      (''baseball'',
       \<lparr>preset_radius = 14, preset_density = 5 / 1000, preset_restitution = 45 / 100,
        preset_friction = 5 / 10, preset_color = ''#f0f0e0'', preset_highlight = ''#ffffff'',
        preset_label = ''Baseball''\<rparr>)]"

text \<open>
  \<open>VARIANTS\<close> is an object literal, so a lookup also finds what \<open>Object.prototype\<close>
  defines under these names: a function, or the prototype itself.
\<close>

definition Object_prototype_keys :: "string list" where
  "Object_prototype_keys =
     [''constructor'', ''hasOwnProperty'', ''isPrototypeOf'', ''propertyIsEnumerable'',
      ''toLocaleString'', ''toString'', ''valueOf'', ''__proto__'', ''__defineGetter__'',
      ''__defineSetter__'', ''__lookupGetter__'', ''__lookupSetter__'']"

text \<open>
  \<open>VARIANTS[this._variant] || VARIANTS.bowling\<close>: a preset of the table, the bowling preset
  when the lookup finds nothing, and \<open>None\<close> when it finds an inherited property, which is
  truthy and is not a preset. A variant that is not a string is looked up under a key
  that names neither a preset nor an inherited property.
\<close>

definition variant_preset :: "jsval \<Rightarrow> preset option" where
  "variant_preset v =
     (case v of
        JStr s \<Rightarrow>
          (case map_of VARIANTS s of
             Some p \<Rightarrow> Some p
           | None \<Rightarrow> (if s \<in> set Object_prototype_keys then None else Some bowling))
      | _ \<Rightarrow> Some bowling)"

record Ball = BaseObject +
  ball_variant :: jsval
  ball_radius :: real
  ball_color :: string
  ball_highlight :: string
  ball_body :: circle

text \<open>
  The constructor, for options that are an object literal. When the preset is an inherited
  property its \<open>radius\<close> is \<open>undefined\<close>: \<open>Bodies.circle\<close> then builds a body without
  vertices, and Matter throws a TypeError on reading the first vertex.
\<close>

definition Ball_new :: "nat \<Rightarrow> jsval \<Rightarrow> jsval \<Rightarrow> (string \<times> jsval) list \<Rightarrow> error + Ball" where
  "Ball_new nextId x y options =
     (let base = BaseObject_new nextId x y options;
          variant = js_or (js_prop ''variant'' options) (JStr ''bowling'')
      in case variant_preset variant of
           None \<Rightarrow> Inl (TypeError [Lit ''Cannot read properties of undefined''])
         | Some p \<Rightarrow>
             (let b = \<lparr>circle_x = x, circle_y = y, circle_radius = JNum (preset_radius p),
                       circle_density = preset_density p, circle_restitution = preset_restitution p,
                       circle_friction = preset_friction p, circle_frictionAir = 1 / 1000,
                       circle_label = [Lit ''ball-'', Val variant], circle_angle = JNum 0\<rparr>
              in Inr (BaseObject.extend base
                   \<lparr>ball_variant = variant, ball_radius = preset_radius p,
                    ball_color = preset_color p, ball_highlight = preset_highlight p,
                    ball_body = (if truthy (obj_angle base) then b\<lparr>circle_angle := obj_angle base\<rparr>
                                 else b)\<rparr>)))"

definition Ball_type :: "Ball \<Rightarrow> string" where
  "Ball_type b = ''ball''"

definition Ball_serialize :: "Ball \<Rightarrow> jsval" where
  "Ball_serialize b =
     JObj (assoc_set ''options'' (JObj (assoc_set ''variant'' (ball_variant b) (obj_options b)))
             (BaseObject_serialize (Ball_type b) b))"

definition Ball_deserialize :: "nat \<Rightarrow> jsval \<Rightarrow> error + Ball" where
  "Ball_deserialize nextId data =
     (case get_prop ''x'' data of
        Inl err \<Rightarrow> Inl err
      | Inr x \<Rightarrow>
          Ball_new nextId x (opt_prop ''y'' data)
            [(''angle'', opt_prop ''angle'' data),
             (''isFixed'', opt_prop ''isFixed'' data),
             (''variant'',
              js_or (opt_prop ''variant'' (opt_prop ''options'' data)) (JStr ''bowling''))])"

text \<open>
  Balloon. The two draws of \<open>Math.random()\<close> in its constructor are arguments; the first
  picks the colour when no \<open>colorIndex\<close> is given.
\<close>

definition COLORS :: "string list" where
  "COLORS = [''#e04040'', ''#4080e0'', ''#40c040'', ''#e0c040'', ''#d060d0'']"

definition color_at :: "jsval \<Rightarrow> jsval" where
  "color_at i =
     (case i of
        JNum r \<Rightarrow>
          (if 0 \<le> r \<and> r < real (length COLORS) \<and> r = real_of_int \<lfloor>r\<rfloor>
           then JStr (COLORS ! nat \<lfloor>r\<rfloor>) else JUndefined)
      | _ \<Rightarrow> JUndefined)"

record Balloon = BaseObject +
  balloon_radius :: jsval
  balloon_colorIndex :: jsval
  balloon_color :: jsval
  balloon_popped :: bool
  balloon_bobPhase :: real
  balloon_body :: circle

definition Balloon_new ::
  "nat \<Rightarrow> real \<Rightarrow> real \<Rightarrow> jsval \<Rightarrow> jsval \<Rightarrow> (string \<times> jsval) list \<Rightarrow> Balloon" where
  "Balloon_new nextId rnd1 rnd2 x y options =
     (let base = BaseObject_new nextId x y options;
          radius = js_or (js_prop ''radius'' options) (JNum 18);
          colorIndex = js_nullish (js_prop ''colorIndex'' options)
                         (JNum (real_of_int \<lfloor>rnd1 * real (length COLORS)\<rfloor>))
      in BaseObject.extend base
           \<lparr>balloon_radius = radius, balloon_colorIndex = colorIndex,
            balloon_color = color_at colorIndex, balloon_popped = False,
            balloon_bobPhase = rnd2 * pi * 2,
            balloon_body =
              \<lparr>circle_x = x, circle_y = y, circle_radius = radius,
               circle_density = 3 / 10000, circle_restitution = 5 / 10,
               circle_friction = 1 / 10, circle_frictionAir = 4 / 100,
               circle_label = [Lit ''balloon''], circle_angle = JNum 0\<rparr>\<rparr>)"

definition Balloon_type :: "Balloon \<Rightarrow> string" where
  "Balloon_type b = ''balloon''"

definition Balloon_serialize :: "Balloon \<Rightarrow> jsval" where
  "Balloon_serialize b =
     JObj (assoc_set ''options''
             (JObj (assoc_set ''colorIndex'' (balloon_colorIndex b) (obj_options b)))
             (BaseObject_serialize (Balloon_type b) b))"

definition Balloon_deserialize :: "nat \<Rightarrow> real \<Rightarrow> real \<Rightarrow> jsval \<Rightarrow> error + Balloon" where
  "Balloon_deserialize nextId rnd1 rnd2 data =
     (case get_prop ''x'' data of
        Inl err \<Rightarrow> Inl err
      | Inr x \<Rightarrow>
          Inr (Balloon_new nextId rnd1 rnd2 x (opt_prop ''y'' data)
                 [(''angle'', opt_prop ''angle'' data),
                  (''isFixed'', opt_prop ''isFixed'' data),
                  (''colorIndex'', opt_prop ''colorIndex'' (opt_prop ''options'' data))]))"

section \<open>Mouse\<close>

text \<open>
  Reading \<open>.world\<close>: the PhysicsEngine has its Matter world there, an object literal has
  what it holds under that key, any other value but \<open>undefined\<close> and \<open>null\<close> has no such
  property, and reading a property of \<open>undefined\<close> or \<open>null\<close> throws.
\<close>

definition get_world :: "jsval \<Rightarrow> error + jsval" where
  "get_world v =
     (case v of
        JEngine \<Rightarrow> Inr JWorld
      | JObj props \<Rightarrow> (case map_of props ''world'' of None \<Rightarrow> Inr JUndefined | Some w \<Rightarrow> Inr w)
      | JUndefined \<Rightarrow> Inl (TypeError [Lit ''Cannot read properties of undefined''])
      | JNull \<Rightarrow> Inl (TypeError [Lit ''Cannot read properties of null''])
      | _ \<Rightarrow> Inr JUndefined)"

text \<open>
  \<open>Mouse.onBeforeUpdate(engine)\<close> begins with \<open>this._isGrounded(engine)\<close>, which begins with
  \<open>Composite.allBodies(engine.world)\<close>: the value that reaches Matter as the world, from
  the argument list of the call.
\<close>

definition Mouse_isGrounded_world :: "jsval \<Rightarrow> error + jsval" where
  "Mouse_isGrounded_world engine = get_world engine"

definition Mouse_onBeforeUpdate_world :: "jsval list \<Rightarrow> error + jsval" where
  "Mouse_onBeforeUpdate_world args = Mouse_isGrounded_world (param 0 args)"

section \<open>ObjectRegistry\<close>

record metadata =
  displayName :: string
  category :: string
  description :: "string option"

text \<open>
  A registered class: what \<open>new ObjectClass(x, y, options)\<close> and the static
  \<open>ObjectClass.deserialize(data)\<close> return or throw.
\<close>

record 'o objclass =
  construct :: "jsval \<Rightarrow> jsval \<Rightarrow> jsval \<Rightarrow> error + 'o"
  deserialize_static :: "jsval \<Rightarrow> error + 'o"

record 'o entry =
  ObjectClass :: "'o objclass"
  entry_metadata :: metadata

text \<open>The Map \<open>_registry\<close> in insertion order, and the warnings written to the console.\<close>

record 'o registry =
  entries :: "(string \<times> 'o entry) list"
  warnings :: "logline list"

definition ObjectRegistry_new :: "'o registry" where
  "ObjectRegistry_new = \<lparr>entries = [], warnings = []\<rparr>"

definition has :: "'o registry \<Rightarrow> string \<Rightarrow> bool" where
  "has r ty = (map_of (entries r) ty \<noteq> None)"

definition register :: "string \<Rightarrow> 'o objclass \<Rightarrow> metadata \<Rightarrow> 'o registry \<Rightarrow> 'o registry" where
  "register ty cls md r =
     \<lparr>entries = assoc_set ty \<lparr>ObjectClass = cls, entry_metadata = md\<rparr> (entries r),
      warnings =
        (if has r ty
         then warnings r @ [ConsoleWarn [Lit ''[ObjectRegistry] Overwriting existing type: '',
                                         Val (JStr ty)]]
         else warnings r)\<rparr>"

text \<open>\<open>this._registry.get(key)\<close>: the keys are strings, any other value finds nothing.\<close>

definition registry_get :: "'o registry \<Rightarrow> jsval \<Rightarrow> 'o entry option" where
  "registry_get r key = (case key of JStr ty \<Rightarrow> map_of (entries r) ty | _ \<Rightarrow> None)"

definition create :: "'o registry \<Rightarrow> jsval \<Rightarrow> jsval \<Rightarrow> jsval \<Rightarrow> jsval \<Rightarrow> error + 'o" where
  \<open>create r ty x y options =
     (case registry_get r ty of
        None \<Rightarrow> Inl (Error [Lit ''[ObjectRegistry] Unknown object type: "'', Val ty, Lit ''"''])
      | Some entry \<Rightarrow>
          construct (ObjectClass entry) x y (if options = JUndefined then JObj [] else options))\<close>

definition deserialize :: "'o registry \<Rightarrow> jsval \<Rightarrow> error + 'o" where
  \<open>deserialize r data =
     (case get_prop ''type'' data of
        Inl err \<Rightarrow> Inl err
      | Inr ty \<Rightarrow>
          (case registry_get r ty of
             None \<Rightarrow>
               Inl (Error [Lit ''[ObjectRegistry] Cannot deserialize unknown type: "'', Val ty,
                           Lit ''"''])
           | Some entry \<Rightarrow> deserialize_static (ObjectClass entry) data))\<close>

definition getAll :: "'o registry \<Rightarrow> (string \<times> metadata) list" where
  "getAll r = map (\<lambda>(ty, e). (ty, entry_metadata e)) (entries r)"

definition getByCategory :: "'o registry \<Rightarrow> string \<Rightarrow> (string \<times> metadata) list" where
  "getByCategory r c = filter (\<lambda>(ty, md). category md = c) (getAll r)"

definition getCategories :: "'o registry \<Rightarrow> string list" where
  "getCategories r = fold (\<lambda>(ty, e) cats. set_add (category (entry_metadata e)) cats) (entries r) []"

text \<open>The registry after a list of \<open>register\<close> calls on a new one.\<close>

definition registered :: "(string \<times> 'o objclass \<times> metadata) list \<Rightarrow> 'o registry" where
  "registered regs = fold (\<lambda>(ty, cls, md). register ty cls md) regs ObjectRegistry_new"

text \<open>
  A class to run the registry with: its constructor returns the three arguments it was
  given, and its static \<open>deserialize\<close> returns the data.
\<close>

definition probe_class :: "(jsval \<times> jsval \<times> jsval) objclass" where
  "probe_class =
     \<lparr>construct = (\<lambda>x y options. Inr (x, y, options)),
      deserialize_static = (\<lambda>data. Inr (data, JUndefined, JUndefined))\<rparr>"

section \<open>The calls of a step and of a frame\<close>

definition listener_calls :: "'u machine \<Rightarrow> string \<Rightarrow> jsval \<Rightarrow> call list" where
  "listener_calls m event data =
     map (\<lambda>cb. Listener cb data) (case listeners m event of None \<Rightarrow> [] | Some cbs \<Rightarrow> cbs)"

definition before_calls :: "real \<Rightarrow> entity list \<Rightarrow> call list" where
  "before_calls dt objs =
     map (\<lambda>obj. Hook (eid obj) ''onBeforeUpdate'' [JNum dt, JEngine]) (filter hasOnBeforeUpdate objs)"

definition after_calls :: "real \<Rightarrow> entity list \<Rightarrow> call list" where
  "after_calls dt objs =
     map (\<lambda>obj. Hook (eid obj) ''onAfterUpdate'' [JNum dt, JEngine]) (filter hasOnAfterUpdate objs)"

text \<open>The pairs Matter reports in a step: the solver runs after the pre-update loop.\<close>

definition step_pairs :: "'u code \<Rightarrow> real \<Rightarrow> 'u machine \<Rightarrow> pair list" where
  "step_pairs K dt m =
     (let m1 = fold (before_update K dt) (objects (physics m)) m
      in snd (solver_code K dt (physics m1) (heap m1)))"

text \<open>The calls a step has added to the trace.\<close>

definition new_calls :: "'u machine \<Rightarrow> 'u machine \<Rightarrow> call list" where
  "new_calls m m' = drop (length (trace m)) (trace m')"

text \<open>An \<open>onCollision\<close> call that was handed the pair with the given id.\<close>

fun onCollision_about :: "nat \<Rightarrow> call \<Rightarrow> bool" where
  "onCollision_about pid (Hook e method args) =
     (method = ''onCollision'' \<and> JPairRef pid \<in> set args)"
| "onCollision_about pid c = False"

text \<open>The calls the collision handler makes for one pair.\<close>

definition onCollision_calls :: "entity \<Rightarrow> entity \<Rightarrow> nat \<Rightarrow> call list" where
  "onCollision_calls objA objB pid =
     (if hasOnCollision objA then [Hook (eid objA) ''onCollision'' [JEntity (eid objB), JPairRef pid]]
      else []) @
     (if hasOnCollision objB then [Hook (eid objB) ''onCollision'' [JEntity (eid objA), JPairRef pid]]
      else [])"

definition collide_calls :: "'u machine \<Rightarrow> pair \<Rightarrow> call list" where
  "collide_calls m p =
     (case bodyToObject (physics m) (bodyA p) of
        None \<Rightarrow> []
      | Some objA \<Rightarrow>
          (case bodyToObject (physics m) (bodyB p) of
             None \<Rightarrow> []
           | Some objB \<Rightarrow>
               onCollision_calls objA objB (pair_id p) @
               listener_calls m ''physics:collision''
                 (JObj [(''objectA'', JEntity (eid objA)), (''objectB'', JEntity (eid objB)),
                        (''pair'', JPairRef (pair_id p))])))"

text \<open>The \<open>onCollision\<close> calls due for a pair, by the lookup of its two bodies.\<close>

definition pair_hooks :: "'u machine \<Rightarrow> pair \<Rightarrow> call list" where
  "pair_hooks m p =
     (case bodyToObject (physics m) (bodyA p) of
        None \<Rightarrow> []
      | Some objA \<Rightarrow>
          (case bodyToObject (physics m) (bodyB p) of
             None \<Rightarrow> []
           | Some objB \<Rightarrow> onCollision_calls objA objB (pair_id p)))"

text \<open>The time steps handed to \<open>Engine.update\<close> in a trace.\<close>

definition integrations :: "call list \<Rightarrow> real list" where
  "integrations tr = concat (map (\<lambda>c. case c of Integrate d \<Rightarrow> [d] | _ \<Rightarrow> []) tr)"


section \<open>Runs of the GameLoop\<close>









section \<open>Game objects by reference, and body ownership\<close>

text \<open>
  The engine keeps references to game objects and reads \<open>gameObject.bodies\<close> and
  \<open>gameObject.constraints\<close> anew at every call, and a game object changes: a balloon
  that has popped returns no body, \<open>dispose()\<close> of every kind sets the fields that held
  its bodies to \<open>null\<close>, and the getter of \<open>BaseObject\<close> itself throws. A game object is
  kept here by what its getters return now and by whether it has a \<open>dispose\<close> method.
\<close>

record gobject =
  g_bodies :: "error + nat option list"
  g_constraints :: "nat option list"
  g_hasDispose :: bool

text \<open>
  The engine with its game objects: \<open>base\<close> is the machine, whose Matter world, bus and
  trace are used; \<open>game_objects\<close> are the game objects by reference (their id); \<open>tracked\<close> is the Set
  \<open>_objects\<close> and \<open>owner\<close> the Map \<open>_bodyToObject\<close>, holding references (the two fields of
  that name in the engine of \<open>base\<close> are not used).
\<close>

record 'u world =
  base :: "'u machine"
  game_objects :: "nat \<Rightarrow> gobject"
  tracked :: "nat list"
  owner :: "nat \<rightharpoonup> nat"


definition bodies_in_world :: "'u world \<Rightarrow> nat list" where
  "bodies_in_world s = world_bodies (physics (base s))"

text \<open>
  \<open>Composite.add(this.world, x)\<close> and \<open>Composite.remove(this.world, x)\<close> start by reading
  \<open>x.type\<close>, which throws a TypeError when \<open>x\<close> is \<open>null\<close>.
\<close>

definition world_add_body :: "nat \<Rightarrow> nat option \<Rightarrow> 'u world comp" where
  "world_add_body r body s =
     (case body of
        None \<Rightarrow> (Some (TypeError [Lit ''Cannot read properties of null'']), s)
      | Some b \<Rightarrow>
          (None,
           s\<lparr>base := (base s)\<lparr>physics :=
                  (physics (base s))\<lparr>world_bodies := world_bodies (physics (base s)) @ [b]\<rparr>\<rparr>,
             owner := (owner s)(b \<mapsto> r)\<rparr>))"

definition world_add_constraint :: "nat option \<Rightarrow> 'u world comp" where
  "world_add_constraint constraint s =
     (case constraint of
        None \<Rightarrow> (Some (TypeError [Lit ''Cannot read properties of null'']), s)
      | Some c \<Rightarrow> (None, s\<lparr>base := (base s)\<lparr>physics := add_constraint c (physics (base s))\<rparr>\<rparr>))"

definition world_remove_body :: "nat option \<Rightarrow> 'u world comp" where
  "world_remove_body body s =
     (case body of
        None \<Rightarrow> (Some (TypeError [Lit ''Cannot read properties of null'']), s)
      | Some b \<Rightarrow>
          (None,
           s\<lparr>base := (base s)\<lparr>physics :=
                  (physics (base s))\<lparr>world_bodies := remove1 b (world_bodies (physics (base s)))\<rparr>\<rparr>,
             owner := (owner s)(b := None)\<rparr>))"

definition world_remove_constraint :: "nat option \<Rightarrow> 'u world comp" where
  "world_remove_constraint constraint s =
     (case constraint of
        None \<Rightarrow> (Some (TypeError [Lit ''Cannot read properties of null'']), s)
      | Some c \<Rightarrow> (None, s\<lparr>base := (base s)\<lparr>physics := remove_constraint c (physics (base s))\<rparr>\<rparr>))"

text \<open>
  \<open>addObject(gameObject)\<close>. The object is in the Set before its bodies are read, so it
  stays there when a later statement throws. The getter \<open>constraints\<close> returns an array
  for every kind, so that the test \<open>if (gameObject.constraints)\<close> holds.
\<close>

definition live_addObject :: "'u code \<Rightarrow> nat \<Rightarrow> 'u world comp" where
  "live_addObject K r s =
     (let s1 = s\<lparr>tracked := set_add r (tracked s)\<rparr>
      in case g_bodies (game_objects s1 r) of
           Inl err \<Rightarrow> (Some err, s1)
         | Inr bs \<Rightarrow>
             (case for_of bs (world_add_body r) s1 of
                (Some err, s2) \<Rightarrow> (Some err, s2)
              | (None, s2) \<Rightarrow>
                  (case for_of (g_constraints (game_objects s2 r)) world_add_constraint s2 of
                     (Some err, s3) \<Rightarrow> (Some err, s3)
                   | (None, s3) \<Rightarrow>
                       (None,
                        s3\<lparr>base := emit K ''physics:object-added'' (JEntity r) (base s3)\<rparr>))))"

text \<open>
  \<open>gameObject.dispose()\<close>: the call is recorded and the object's code runs; what it does
  to the object itself is the argument \<open>D\<close>.
\<close>

definition live_dispose :: "'u code \<Rightarrow> (nat \<Rightarrow> gobject \<Rightarrow> gobject) \<Rightarrow> nat \<Rightarrow> 'u world \<Rightarrow> 'u world" where
  "live_dispose K D r s =
     (let m = base s;
          h = hook_code K r ''dispose'' [] (user m, heap m)
      in s\<lparr>base := m\<lparr>trace := trace m @ [Hook r ''dispose'' []], user := fst h, heap := snd h\<rparr>,
           game_objects := (game_objects s)(r := D r (game_objects s r))\<rparr>)"

definition live_removeObject ::
  "'u code \<Rightarrow> (nat \<Rightarrow> gobject \<Rightarrow> gobject) \<Rightarrow> nat \<Rightarrow> 'u world comp" where
  "live_removeObject K D r s =
     (case for_of (g_constraints (game_objects s r)) world_remove_constraint s of
        (Some err, s1) \<Rightarrow> (Some err, s1)
      | (None, s1) \<Rightarrow>
          (case g_bodies (game_objects s1 r) of
             Inl err \<Rightarrow> (Some err, s1)
           | Inr bs \<Rightarrow>
               (case for_of bs world_remove_body s1 of
                  (Some err, s2) \<Rightarrow> (Some err, s2)
                | (None, s2) \<Rightarrow>
                    (let s3 = s2\<lparr>tracked := removeAll r (tracked s2)\<rparr>;
                         s4 = (if g_hasDispose (game_objects s3 r) then live_dispose K D r s3 else s3)
                     in (None,
                         s4\<lparr>base := emit K ''physics:object-removed'' (JEntity r) (base s4)\<rparr>)))))"

text \<open>\<open>clear\<close> walks a copy of the Set taken before the first removal.\<close>

definition live_clear :: "'u code \<Rightarrow> (nat \<Rightarrow> gobject \<Rightarrow> gobject) \<Rightarrow> 'u world comp" where
  "live_clear K D s = for_of (tracked s) (live_removeObject K D) s"

text \<open>
  What is done with an engine, one thing after the other: the three operations, and a
  game object changing its state in between by a method of its own (\<open>pop()\<close>, say). A
  caller may go on after an operation has thrown.
\<close>

datatype op = Add nat | Remove nat | Clear | Becomes nat gobject









text \<open>The bodies that a loop over a game object's bodies reaches before it ends.\<close>

definition reached :: "gobject \<Rightarrow> nat list" where
  "reached obj =
     (case g_bodies obj of
        Inl err \<Rightarrow> []
      | Inr bs \<Rightarrow> map the (takeWhile (\<lambda>body. body \<noteq> None) bs))"


text \<open>
  The two descriptions of the engine side by side. An entity is a game object whose
  getters return its bodies and constraints, none of them \<open>null\<close>; and the engine that
  keeps references is the engine that keeps entities, when each reference \<open>r\<close> stands for
  the entity \<open>E r\<close>.
\<close>

definition gobject_of :: "entity \<Rightarrow> gobject" where
  "gobject_of e =
     \<lparr>g_bodies = Inr (map Some (bodies e)), g_constraints = map Some (constraints e),
      g_hasDispose = hasDispose e\<rparr>"

definition as_machine :: "(nat \<Rightarrow> entity) \<Rightarrow> 'u world \<Rightarrow> 'u machine" where
  "as_machine E s =
     (base s)\<lparr>physics :=
        (physics (base s))\<lparr>objects := map E (tracked s),
                            bodyToObject := (\<lambda>b. map_option E (owner s b))\<rparr>\<rparr>"

section \<open>What a restore writes\<close>

text \<open>
  The captured body states that \<open>restoreSnapshot\<close> applies, in order: those of the i-th
  snapshot entry whose id is the id of a body of the i-th tracked game object.
\<close>

fun snapshot_writes :: "snap list \<Rightarrow> entity list \<Rightarrow> bodyState list" where
  "snapshot_writes (sn # snaps) (obj # objs) =
     filter (\<lambda>bs. bs_id bs \<in> set (bodies obj)) (bodyStates sn) @ snapshot_writes snaps objs"
| "snapshot_writes [] objs = []"
| "snapshot_writes snaps [] = []"

definition write_body :: "bodyState \<Rightarrow> (nat \<Rightarrow> body) \<Rightarrow> (nat \<Rightarrow> body)" where
  "write_body bs h = h(bs_id bs := set_body bs (h (bs_id bs)))"

text \<open>The body after a list of writes: the last write to its id, if there is one.\<close>

definition written :: "bodyState list \<Rightarrow> nat \<Rightarrow> body \<Rightarrow> body" where
  "written ws x b =
     (case filter (\<lambda>bs. bs_id bs = x) ws of
        [] \<Rightarrow> b
      | w # l \<Rightarrow> set_body (last (w # l)) b)"

section \<open>Machines to run\<close>

definition blank_body :: body where
  "blank_body =
     \<lparr>position = (0, 0), angle = 0, velocity = (0, 0), angularVelocity = 0,
      isSleeping = False, isStatic = False, label = []\<rparr>"

text \<open>Outside code that does nothing: no listener throws, no body moves, nothing collides.\<close>

definition idle_code :: "unit code" where
  "idle_code =
     \<lparr>listener_code = (\<lambda>cb data u. (None, u)),
      hook_code = (\<lambda>e method args s. s),
      render_code = (\<lambda>u. u),
      solver_code = (\<lambda>dt p h. (h, []))\<rparr>"

text \<open>
  The state before the application starts, and the state after
  \<open>new PhysicsEngine(800, 600)\<close> and \<open>new GameLoop(physics, render)\<close>: Matter has given the
  four walls the ids 1 to 4.
\<close>

definition unstarted :: "unit machine" where
  "unstarted =
     \<lparr>user = (), trace = [], console = [], listeners = Map.empty,
      heap = (\<lambda>b. blank_body),
      physics = \<lparr>width = 0, height = 0, gravity = (0, 0), enableSleeping = False, timeScale = 0,
                 world_bodies = [], world_constraints = [], objects = [],
                 bodyToObject = Map.empty, snapshot = None\<rparr>,
      gloop = \<lparr>loop_state = STOPPED, rafId = None, elapsed = 0, lastTimestamp = 0,
                speed = 0, maxDt = 0\<rparr>,
      raf_next = 1, raf_pending = []\<rparr>"

definition fresh_engine :: "unit machine" where
  "fresh_engine =
     PhysicsEngine_new 800 600
       \<lparr>gravityX = None, gravityY = None, opt_enableSleeping = None\<rparr> 1 2 3 4 unstarted"

definition boot :: "unit machine" where
  "boot = GameLoop_new fresh_engine"

text \<open>
  Two game objects as \<open>BaseObject\<close> makes them (it defines \<open>onBeforeUpdate\<close>,
  \<open>onCollision\<close> and \<open>dispose\<close>, and no \<open>onAfterUpdate\<close>): a ball that owns body 10 and a
  mouse that owns body 20.
\<close>

definition ball1 :: entity where
  "ball1 =
     \<lparr>eid = 1, etype = ''ball'', bodies = [10], constraints = [],
      serialized = JObj [(''type'', JStr ''ball'')],
      hasOnBeforeUpdate = True, hasOnAfterUpdate = False, hasOnCollision = True,
      hasDispose = True\<rparr>"

definition mouse2 :: entity where
  "mouse2 =
     \<lparr>eid = 2, etype = ''mouse'', bodies = [20], constraints = [],
      serialized = JObj [(''type'', JStr ''mouse'')],
      hasOnBeforeUpdate = True, hasOnAfterUpdate = False, hasOnCollision = True,
      hasDispose = True\<rparr>"

definition ball_and_mouse :: "unit machine" where
  "ball_and_mouse = addObject idle_code mouse2 (addObject idle_code ball1 boot)"

definition mouse_alone :: "unit machine" where
  "mouse_alone = addObject idle_code mouse2 boot"

text \<open>A solver that reports two contacts: ball against mouse, and ball against the floor.\<close>

definition two_contacts :: "unit code" where
  "two_contacts =
     idle_code\<lparr>solver_code :=
       (\<lambda>dt p h. (h, [\<lparr>pair_id = 1, bodyA = 10, bodyB = 20\<rparr>,
                        \<lparr>pair_id = 2, bodyA = 10, bodyB = 1\<rparr>]))\<rparr>"


definition ball_metadata :: metadata where
  "ball_metadata = \<lparr>displayName = ''Ball'', category = ''balls'', description = None\<rparr>"








section \<open>EventBus: facts\<close>

lemma entries_kept_refl [simp]: "entries_kept es es"
  by (simp add: entries_kept_def)


lemma entries_kept_add [simp]: "entries_kept es (Set_add f es)"
  by (simp add: entries_kept_def Set_add_def nth_append)

lemma entries_kept_delete [simp]: "entries_kept es (Set_delete f es)"
  by (simp add: entries_kept_def Set_delete_def)

lemma bus_grows_refl [simp]: "bus_grows b b"
  by (simp add: bus_grows_def)















lemma bus_ok_on: "bus_ok b \<Longrightarrow> bus_ok (EventBus_on event f b)"
  by (auto simp: bus_ok_def EventBus_on_def Let_def less_Suc_eq split: option.splits if_splits)

lemma bus_ok_off: "bus_ok b \<Longrightarrow> bus_ok (EventBus_off event f b)"
  by (auto simp: bus_ok_def EventBus_off_def Let_def split: option.splits if_splits)

lemma bus_ok_clear: "bus_ok b \<Longrightarrow> bus_ok (EventBus_clear event b)"
  by (auto simp: bus_ok_def EventBus_clear_def split: option.splits if_splits)

lemma bus_ok_fields:
  "bus_ok (b\<lparr>bus_trace := t\<rparr>) = bus_ok b"
  "bus_ok (b\<lparr>bus_user := u\<rparr>) = bus_ok b"
  "bus_ok (b\<lparr>bus_console := c\<rparr>) = bus_ok b"
  by (simp_all add: bus_ok_def)

lemma bus_calls_ok:
  "(\<forall>r b'. call_fn fuel L f data b = Some (r, b') \<longrightarrow> bus_ok b \<longrightarrow> bus_ok b')"
  "(\<forall>r b'. run_bus_ops fuel L ops b = Some (r, b') \<longrightarrow> bus_ok b \<longrightarrow> bus_ok b')"
  "(\<forall>r b'. EventBus_emit fuel L event data b = Some (r, b') \<longrightarrow> bus_ok b \<longrightarrow> bus_ok b')"
  "(\<forall>r b'. emit_walk fuel L event data s i b = Some (r, b') \<longrightarrow> bus_ok b \<longrightarrow> bus_ok b')"
proof (induct fuel L f data b and fuel L ops b and fuel L event data b and fuel L event data s i b
    rule: call_fn_run_bus_ops_EventBus_emit_emit_walk.induct)
  case (1 fuel L callback data b)
  let ?b1 = "b\<lparr>bus_trace := bus_trace b @ [Listener callback data]\<rparr>"
  let ?r = "L callback data (bus_user ?b1)"
  let ?b2 = "?b1\<lparr>bus_user := fst ?r\<rparr>"
  show ?case
  proof (intro allI impI)
    fix r b' assume a: "call_fn fuel L callback data b = Some (r, b')" and ok: "bus_ok b"
    then obtain r2 where "run_bus_ops fuel L (fst (snd ?r)) ?b2 = Some (r2, b')"
      by (auto simp: Let_def split: option.splits prod.splits)
    moreover have "bus_ok ?b2" using ok by (simp add: bus_ok_fields)
    ultimately show "bus_ok b'" using 1 [OF refl refl] by blast
  qed
next
  case (2 fuel L b)
  show ?case by simp
next
  case (3 fuel L event f ops b)
  then show ?case using bus_ok_on [of b event f] by auto
next
  case (4 fuel L event f ops b)
  then show ?case using bus_ok_off [of b event f] by auto
next
  case (5 fuel L event ops b)
  then show ?case using bus_ok_clear [of b event] by auto
next
  case (6 fuel L event data ops b)
  show ?case
  proof (intro allI impI)
    fix r b' assume a: "run_bus_ops fuel L (Emit event data # ops) b = Some (r, b')"
      and ok: "bus_ok b"
    then obtain r1 b1 where e: "EventBus_emit fuel L event data b = Some (r1, b1)"
      by (cases "EventBus_emit fuel L event data b") auto
    have g1: "bus_ok b1" using 6(1) e ok by blast
    show "bus_ok b'"
    proof (cases r1)
      case None
      then have "run_bus_ops fuel L ops b1 = Some (r, b')" using a e by simp
      then show ?thesis using 6(2) [OF e refl None] g1 by blast
    next
      case (Some err)
      then have "b' = b1" using a e by simp
      then show ?thesis using g1 by simp
    qed
  qed
next
  case (7 fuel L event data b)
  then show ?case by (auto split: option.splits)
next
  case (8 L event data s i b)
  show ?case by simp
next
  case (9 fuel L event data s i b)
  show ?case
  proof (intro allI impI)
    fix r b' assume a: "emit_walk (Suc fuel) L event data s i b = Some (r, b')" and ok: "bus_ok b"
    show "bus_ok b'"
    proof (cases "length (bus_sets b s) \<le> i")
      case True
      then show ?thesis using a ok by simp
    next
      case False
      show ?thesis
      proof (cases "bus_sets b s ! i")
        case None
        then show ?thesis using a False 9(1) ok by simp
      next
        case (Some f)
        then obtain r1 b1 where c: "call_fn fuel L f data b = Some (r1, b1)"
          using a False by (cases "call_fn fuel L f data b") auto
        have g1: "bus_ok b1" using 9(2) [OF False Some] c ok by blast
        show ?thesis
        proof (cases r1)
          case None
          then have "emit_walk fuel L event data s (Suc i) b1 = Some (r, b')"
            using a False Some c by simp
          then show ?thesis using 9(3) [OF False Some c refl None] g1 by blast
        next
          case (Some err)
          let ?b2 = \<open>b1\<lparr>bus_console := bus_console b1 @
                         [ConsoleError [Lit ''[EventBus] Error in listener for "'',
                                        Val (JStr event), Lit ''":''] err]\<rparr>\<close>
          have "emit_walk fuel L event data s (Suc i) ?b2 = Some (r, b')"
            using a False \<open>bus_sets b s ! i = Some f\<close> c Some by simp
          moreover have "bus_ok ?b2" using g1 by (simp add: bus_ok_fields)
          ultimately show ?thesis
            using 9(4) [OF False \<open>bus_sets b s ! i = Some f\<close> c refl Some] by blast
        qed
      qed
    qed
  qed
qed






lemma Set_values_simps [simp]:
  "Set_values [] = []"
  "Set_values (None # es) = Set_values es"
  "Set_values (Some f # es) = f # Set_values es"
  by (simp_all add: Set_values_def)

lemma call_fn_leaves_bus_alone:
  "call_fn fuel (leaves_bus_alone K) f data b
     = Some (fst (listener_code K f data (bus_user b)),
             b\<lparr>bus_trace := bus_trace b @ [Listener f data],
               bus_user := snd (listener_code K f data (bus_user b))\<rparr>)"
  by (simp add: leaves_bus_alone_def Let_def)

lemma deliver_walk:
  assumes "length (bus_sets b s) - i < fuel"
  shows \<open>\<exists>b'. emit_walk fuel (leaves_bus_alone K) event data s i b = Some (None, b') \<and>
          bus_listeners b' = bus_listeners b \<and> bus_sets b' = bus_sets b \<and>
          snd (for_of (Set_values (drop i (bus_sets b s)))
                 (\<lambda>callback.
                    try_catch (call_listener K callback data)
                      (\<lambda>err. console_error
                         [Lit ''[EventBus] Error in listener for "'', Val (JStr event), Lit ''":'']
                         err))
                 (m\<lparr>user := bus_user b, trace := bus_trace b, console := bus_console b\<rparr>))
            = m\<lparr>user := bus_user b', trace := bus_trace b', console := bus_console b'\<rparr>\<close>
  using assms
proof (induction fuel arbitrary: i b)
  case 0
  then show ?case by simp
next
  case (Suc fuel)
  let ?msg = \<open>[Lit ''[EventBus] Error in listener for "'', Val (JStr event), Lit ''":'']\<close>
  let ?G = "\<lambda>callback. try_catch (call_listener K callback data) (\<lambda>err. console_error ?msg err)"
  let ?M = "\<lambda>b. m\<lparr>user := bus_user b, trace := bus_trace b, console := bus_console b\<rparr>"
  show ?case
  proof (cases "length (bus_sets b s) \<le> i")
    case True
    then show ?thesis by simp
  next
    case False
    then have d: "drop i (bus_sets b s) = bus_sets b s ! i # drop (Suc i) (bus_sets b s)"
      by (simp add: Cons_nth_drop_Suc)
    have l: "length (bus_sets b s) - Suc i < fuel" using False Suc.prems by simp
    show ?thesis
    proof (cases "bus_sets b s ! i")
      case None
      then show ?thesis using False d Suc.IH [OF l] by simp
    next
      case (Some f)
      let ?r = "listener_code K f data (bus_user b)"
      let ?b1 = "b\<lparr>bus_trace := bus_trace b @ [Listener f data], bus_user := snd ?r\<rparr>"
      let ?b2 = "case fst ?r of None \<Rightarrow> ?b1
                 | Some err \<Rightarrow> ?b1\<lparr>bus_console := bus_console ?b1 @ [ConsoleError ?msg err]\<rparr>"
      have c: "call_fn fuel (leaves_bus_alone K) f data b = Some (fst ?r, ?b1)"
        by (rule call_fn_leaves_bus_alone)
      have w: "emit_walk (Suc fuel) (leaves_bus_alone K) event data s i b
                 = emit_walk fuel (leaves_bus_alone K) event data s (Suc i) ?b2"
        using False Some by (cases "fst ?r") (simp_all add: c del: call_fn.simps)
      have g: "?G f (?M b) = (None, ?M ?b2)"
        by (cases "fst ?r")
          (simp_all add: try_catch_def call_listener_def console_error_def Let_def
            split: prod.splits)
      have k: "bus_sets ?b2 = bus_sets b" "bus_listeners ?b2 = bus_listeners b"
        by (cases "fst ?r"; simp)+
      have "length (bus_sets ?b2 s) - Suc i < fuel" using l k by simp
      from Suc.IH [OF this]
      obtain b' where e: "emit_walk fuel (leaves_bus_alone K) event data s (Suc i) ?b2 = Some (None, b')"
        and k': "bus_listeners b' = bus_listeners ?b2" "bus_sets b' = bus_sets ?b2"
        and f': "snd (for_of (Set_values (drop (Suc i) (bus_sets ?b2 s))) ?G (?M ?b2)) = ?M b'"
        by blast
      have "snd (for_of (Set_values (drop i (bus_sets b s))) ?G (?M b)) = ?M b'"
        using f' by (simp only: d Some Set_values_simps for_of.simps g k) simp
      then show ?thesis using e k k' by (simp only: w) simp
    qed
  qed
qed

text \<open>
  For listeners that leave the bus alone, \<open>emit\<close> on the bus returns for any bound above
  the number of entries of the Set, and it is the \<open>emit\<close> of the machine.
\<close>

lemma emit_is_EventBus_emit:
  assumes "case bus_listeners b event of None \<Rightarrow> True | Some s \<Rightarrow> length (bus_sets b s) < fuel"
  shows "\<exists>b'. EventBus_emit fuel (leaves_bus_alone K) event data b = Some (None, b') \<and>
               bus_view b' m = emit K event data (bus_view b m)"
proof (cases "bus_listeners b event")
  case None
  then show ?thesis by (simp add: emit_def deliver_def bus_view_def)
next
  case (Some s)
  let ?V = "\<lambda>event. map_option (\<lambda>s. Set_values (bus_sets b s)) (bus_listeners b event)"
  have l: "length (bus_sets b s) - 0 < fuel" using assms Some by simp
  obtain b' where w: "emit_walk fuel (leaves_bus_alone K) event data s 0 b = Some (None, b')"
    and k: "bus_listeners b' = bus_listeners b" "bus_sets b' = bus_sets b"
    and f: \<open>snd (for_of (Set_values (drop 0 (bus_sets b s)))
                 (\<lambda>callback.
                    try_catch (call_listener K callback data)
                      (\<lambda>err. console_error
                         [Lit ''[EventBus] Error in listener for "'', Val (JStr event), Lit ''":'']
                         err))
                 ((m\<lparr>listeners := ?V\<rparr>)\<lparr>user := bus_user b, trace := bus_trace b,
                                         console := bus_console b\<rparr>))
            = (m\<lparr>listeners := ?V\<rparr>)\<lparr>user := bus_user b', trace := bus_trace b',
                                      console := bus_console b'\<rparr>\<close>
    using deliver_walk [OF l, of K event data "m\<lparr>listeners := ?V\<rparr>"] by blast
  have "emit K event data (bus_view b m) = bus_view b' m"
    using f Some by (simp add: emit_def deliver_def bus_view_def k)
  then show ?thesis using w Some by simp
qed

section \<open>The bus under the engine and the run loop: facts\<close>

lemma console_error_fst: "fst (console_error msg err m) = None"
  by (simp add: console_error_def)

lemma guarded_listener_fst:
  "fst (try_catch (call_listener K cb data) (\<lambda>err. console_error msg err) m) = None"
  by (simp add: try_catch_def console_error_def split: prod.splits option.splits)

lemma guarded_listener_trace:
  "trace (snd (try_catch (call_listener K cb data) (\<lambda>err. console_error msg err) m))
     = trace m @ [Listener cb data]"
  by (simp add: try_catch_def console_error_def call_listener_def Let_def
      split: prod.splits option.splits)

lemma guarded_loop:
  "fst (for_of cbs (\<lambda>cb. try_catch (call_listener K cb data) (\<lambda>err. console_error msg err)) m) = None
   \<and> trace (snd (for_of cbs (\<lambda>cb. try_catch (call_listener K cb data) (\<lambda>err. console_error msg err)) m))
       = trace m @ map (\<lambda>cb. Listener cb data) cbs"
proof (induction cbs arbitrary: m)
  case Nil
  show ?case by simp
next
  case (Cons cb cbs)
  let ?g = "try_catch (call_listener K cb data) (\<lambda>err. console_error msg err)"
  obtain r m' where step: "?g m = (r, m')" by (cases "?g m")
  have r: "r = None" using guarded_listener_fst [of K cb data msg m] step by simp
  have t: "trace m' = trace m @ [Listener cb data]"
    using guarded_listener_trace [of K cb data msg m] step by simp
  show ?case using Cons.IH [of m'] step r t by simp
qed

lemma emit_fst: "fst (deliver K event data m) = None"
  by (simp add: deliver_def guarded_loop split: option.splits)

lemma emit_trace:
  "trace (emit K event data m)
     = trace m @ map (\<lambda>cb. Listener cb data) (case listeners m event of None \<Rightarrow> [] | Some cbs \<Rightarrow> cbs)"
  by (simp add: emit_def deliver_def guarded_loop split: option.splits)

lemma guarded_listener_same:
  "\<exists>u t c. snd (try_catch (call_listener K cb data) (\<lambda>err. console_error msg err) m)
      = m\<lparr>user := u, trace := t, console := c\<rparr>"
proof (cases "fst (listener_code K cb data (user m))")
  case None
  have "snd (try_catch (call_listener K cb data) (\<lambda>err. console_error msg err) m)
      = m\<lparr>user := snd (listener_code K cb data (user m)), trace := trace m @ [Listener cb data], console := console m\<rparr>"
    using None by (simp add: try_catch_def call_listener_def Let_def split: prod.splits)
  then show ?thesis by blast
next
  case (Some err)
  have "snd (try_catch (call_listener K cb data) (\<lambda>err. console_error msg err) m)
      = m\<lparr>user := snd (listener_code K cb data (user m)), trace := trace m @ [Listener cb data],
           console := console m @ [ConsoleError msg err]\<rparr>"
    using Some by (simp add: try_catch_def call_listener_def console_error_def Let_def split: prod.splits)
  then show ?thesis by blast
qed

lemma guarded_loop_same:
  "\<exists>u t c. snd (for_of cbs (\<lambda>cb. try_catch (call_listener K cb data) (\<lambda>err. console_error msg err)) m)
      = m\<lparr>user := u, trace := t, console := c\<rparr>"
proof (induction cbs arbitrary: m)
  case Nil
  have "m = m\<lparr>user := user m, trace := trace m, console := console m\<rparr>" by simp
  then show ?case by (metis for_of.simps(1) snd_conv)
next
  case (Cons cb cbs)
  let ?g = "try_catch (call_listener K cb data) (\<lambda>err. console_error msg err)"
  obtain r m' where st: "?g m = (r, m')" by (cases "?g m")
  have r: "r = None" using guarded_listener_fst [of K cb data msg m] st by simp
  obtain u t c where m': "m' = m\<lparr>user := u, trace := t, console := c\<rparr>"
    using guarded_listener_same [of K cb data msg m] st by auto
  obtain u2 t2 c2 where
    "snd (for_of cbs (\<lambda>cb. try_catch (call_listener K cb data) (\<lambda>err. console_error msg err)) m')
       = m'\<lparr>user := u2, trace := t2, console := c2\<rparr>"
    using Cons.IH [of m'] by blast
  then have "snd (for_of (cb # cbs) (\<lambda>cb. try_catch (call_listener K cb data) (\<lambda>err. console_error msg err)) m)
       = m\<lparr>user := u2, trace := t2, console := c2\<rparr>"
    using st r m' by simp
  then show ?case by blast
qed

lemma emit_same: "\<exists>u t c. emit K event data m = m\<lparr>user := u, trace := t, console := c\<rparr>"
proof (cases "listeners m event")
  case None
  have "m = m\<lparr>user := user m, trace := trace m, console := console m\<rparr>" by simp
  then show ?thesis using None by (metis deliver_def emit_def option.simps(4) snd_conv)
next
  case (Some cbs)
  then show ?thesis using guarded_loop_same [of cbs K data _ m]
    by (simp add: emit_def deliver_def)
qed

lemma emit_physics [simp]: "physics (emit K event data m) = physics m"
  using emit_same [of K event data m] by auto
lemma emit_gloop [simp]: "gloop (emit K event data m) = gloop m"
  using emit_same [of K event data m] by auto
lemma emit_heap [simp]: "heap (emit K event data m) = heap m"
  using emit_same [of K event data m] by auto
lemma emit_listeners [simp]: "listeners (emit K event data m) = listeners m"
  using emit_same [of K event data m] by auto
lemma emit_raf_next [simp]: "raf_next (emit K event data m) = raf_next m"
  using emit_same [of K event data m] by auto
lemma emit_raf_pending [simp]: "raf_pending (emit K event data m) = raf_pending m"
  using emit_same [of K event data m] by auto

section \<open>GameLoop: facts\<close>

lemma schedule_frame_fields [simp]:
  "physics (schedule_frame m) = physics m"
  "heap (schedule_frame m) = heap m"
  "trace (schedule_frame m) = trace m"
  "listeners (schedule_frame m) = listeners m"
  "loop_state (gloop (schedule_frame m)) = loop_state (gloop m)"
  "elapsed (gloop (schedule_frame m)) = elapsed (gloop m)"
  "speed (gloop (schedule_frame m)) = speed (gloop m)"
  "lastTimestamp (gloop (schedule_frame m)) = lastTimestamp (gloop m)"
  by (simp_all add: schedule_frame_def requestAnimationFrame_def Let_def)

lemma cancel_frame_fields [simp]:
  "physics (cancel_frame m) = physics m"
  "heap (cancel_frame m) = heap m"
  "trace (cancel_frame m) = trace m"
  "listeners (cancel_frame m) = listeners m"
  "loop_state (gloop (cancel_frame m)) = loop_state (gloop m)"
  "elapsed (gloop (cancel_frame m)) = elapsed (gloop m)"
  "speed (gloop (cancel_frame m)) = speed (gloop m)"
  "lastTimestamp (gloop (cancel_frame m)) = lastTimestamp (gloop m)"
  by (simp_all add: cancel_frame_def cancelAnimationFrame_def split: option.splits)







lemma boot_listeners: "listeners boot = Map.empty"
  by (simp add: boot_def fresh_engine_def GameLoop_new_def PhysicsEngine_new_def addBoundaries_def unstarted_def Let_def)

lemma boot_trace: "trace boot = []"
  by (simp add: boot_def fresh_engine_def GameLoop_new_def PhysicsEngine_new_def addBoundaries_def unstarted_def Let_def)

lemma emit_no_listeners: "listeners m event = None \<Longrightarrow> emit K event data m = m"
  by (simp add: emit_def deliver_def)


section \<open>PhysicsEngine: what a step calls\<close>

lemma call_hook_fields [simp]:
  "physics (call_hook K obj method args m) = physics m"
  "gloop (call_hook K obj method args m) = gloop m"
  "listeners (call_hook K obj method args m) = listeners m"
  "raf_next (call_hook K obj method args m) = raf_next m"
  "raf_pending (call_hook K obj method args m) = raf_pending m"
  "trace (call_hook K obj method args m) = trace m @ [Hook (eid obj) method args]"
  by (simp_all add: call_hook_def Let_def)

lemma emit_trace': "trace (emit K event data m) = trace m @ listener_calls m event data"
  by (simp add: emit_trace listener_calls_def)

lemma before_update_fields [simp]:
  "physics (before_update K dt obj m) = physics m"
  "gloop (before_update K dt obj m) = gloop m"
  "listeners (before_update K dt obj m) = listeners m"
  by (simp_all add: before_update_def)

lemma after_update_fields [simp]:
  "physics (after_update K dt obj m) = physics m"
  "gloop (after_update K dt obj m) = gloop m"
  "listeners (after_update K dt obj m) = listeners m"
  by (simp_all add: after_update_def)

lemma fold_before_update:
  "physics (fold (before_update K dt) objs m) = physics m \<and>
   gloop (fold (before_update K dt) objs m) = gloop m \<and>
   listeners (fold (before_update K dt) objs m) = listeners m \<and>
   trace (fold (before_update K dt) objs m) = trace m @ before_calls dt objs"
  by (induction objs arbitrary: m) (simp_all add: before_calls_def before_update_def)

lemma fold_after_update:
  "physics (fold (after_update K dt) objs m) = physics m \<and>
   gloop (fold (after_update K dt) objs m) = gloop m \<and>
   listeners (fold (after_update K dt) objs m) = listeners m \<and>
   trace (fold (after_update K dt) objs m) = trace m @ after_calls dt objs"
  by (induction objs arbitrary: m) (simp_all add: after_calls_def after_update_def)

lemma collide_fields:
  "physics (collide K p m) = physics m \<and>
   gloop (collide K p m) = gloop m \<and>
   listeners (collide K p m) = listeners m \<and>
   trace (collide K p m) = trace m @ collide_calls m p"
  by (simp add: collide_def collide_calls_def onCollision_calls_def Let_def emit_trace'
      listener_calls_def split: option.splits)

lemma collide_calls_cong:
  "physics m' = physics m \<Longrightarrow> listeners m' = listeners m \<Longrightarrow> collide_calls m' p = collide_calls m p"
  by (simp add: collide_calls_def listener_calls_def split: option.splits)

lemma collisionStart_fields:
  "physics (collisionStart K pairs m) = physics m \<and>
   gloop (collisionStart K pairs m) = gloop m \<and>
   listeners (collisionStart K pairs m) = listeners m \<and>
   trace (collisionStart K pairs m) = trace m @ concat (map (collide_calls m) pairs)"
proof (induction pairs arbitrary: m)
  case Nil
  show ?case by (simp add: collisionStart_def)
next
  case (Cons p pairs)
  have c: "collisionStart K (p # pairs) m = collisionStart K pairs (collide K p m)"
    by (simp add: collisionStart_def)
  have e: "collide_calls (collide K p m) = collide_calls m"
    using collide_fields [of K p m] by (intro ext collide_calls_cong) simp_all
  show ?case using Cons.IH [of "collide K p m"] collide_fields [of K p m] c e by simp
qed

lemma Engine_update_fields:
  "physics (Engine_update K dt m) = physics m \<and>
   gloop (Engine_update K dt m) = gloop m \<and>
   listeners (Engine_update K dt m) = listeners m \<and>
   trace (Engine_update K dt m)
     = trace m @ Integrate dt # concat (map (collide_calls m) (snd (solver_code K dt (physics m) (heap m))))"
proof -
  let ?r = "solver_code K dt (physics m) (heap m)"
  let ?m1 = "m\<lparr>trace := trace m @ [Integrate dt], heap := fst ?r\<rparr>"
  have e: "collide_calls ?m1 = collide_calls m"
    by (intro ext collide_calls_cong) simp_all
  show ?thesis
    using collisionStart_fields [of K "snd ?r" ?m1] e
    by (simp add: Engine_update_def Let_def)
qed

lemma step_fields:
  "physics (step K dt m) = physics m"
  "gloop (step K dt m) = gloop m"
  "listeners (step K dt m) = listeners m"
proof -
  let ?m1 = "fold (before_update K dt) (objects (physics m)) m"
  let ?m2 = "Engine_update K dt ?m1"
  have a: "physics ?m2 = physics m \<and> gloop ?m2 = gloop m \<and> listeners ?m2 = listeners m"
    using Engine_update_fields [of K dt ?m1] fold_before_update [of K dt "objects (physics m)" m]
    by simp
  show "physics (step K dt m) = physics m" "gloop (step K dt m) = gloop m"
    "listeners (step K dt m) = listeners m"
    using a fold_after_update [of K dt "objects (physics m)" ?m2]
    by (simp_all add: step_def Let_def)
qed

lemma step_trace:
  "trace (step K dt m)
     = trace m @ before_calls dt (objects (physics m)) @
       Integrate dt # concat (map (collide_calls m) (step_pairs K dt m)) @
       after_calls dt (objects (physics m))"
proof -
  let ?m1 = "fold (before_update K dt) (objects (physics m)) m"
  let ?m2 = "Engine_update K dt ?m1"
  have b: "physics ?m1 = physics m" "listeners ?m1 = listeners m"
    "trace ?m1 = trace m @ before_calls dt (objects (physics m))"
    using fold_before_update [of K dt "objects (physics m)" m] by simp_all
  have pr: "snd (solver_code K dt (physics ?m1) (heap ?m1)) = step_pairs K dt m"
    by (simp add: step_pairs_def Let_def)
  have e: "collide_calls ?m1 = collide_calls m"
    using b by (intro ext collide_calls_cong) simp_all
  have u: "physics ?m2 = physics m"
    "trace ?m2 = trace m @ before_calls dt (objects (physics m)) @
        Integrate dt # concat (map (collide_calls m) (step_pairs K dt m))"
    using Engine_update_fields [of K dt ?m1] b pr e by simp_all
  show ?thesis
    using u fold_after_update [of K dt "objects (physics m)" ?m2]
    by (simp add: step_def Let_def)
qed

section \<open>PhysicsEngine: collisions\<close>

lemma filter_before_calls: "filter (onCollision_about pid) (before_calls dt objs) = []"
  by (induction objs) (simp_all add: before_calls_def)

lemma filter_after_calls: "filter (onCollision_about pid) (after_calls dt objs) = []"
  by (induction objs) (simp_all add: after_calls_def)

lemma filter_listener_calls: "filter (onCollision_about pid) (listener_calls m event data) = []"
proof -
  have "filter (onCollision_about pid) (map (\<lambda>cb. Listener cb data) cbs) = []" for cbs
    by (induction cbs) simp_all
  then show ?thesis by (simp add: listener_calls_def)
qed

lemma filter_onCollision_calls:
  "filter (onCollision_about pid) (onCollision_calls objA objB q)
     = (if q = pid then onCollision_calls objA objB q else [])"
  by (simp add: onCollision_calls_def)

lemma filter_collide_calls:
  "filter (onCollision_about pid) (collide_calls m p)
     = (if pair_id p = pid then pair_hooks m p else [])"
  by (simp add: collide_calls_def pair_hooks_def filter_onCollision_calls filter_listener_calls
      split: option.splits)

lemma filter_other_pairs:
  "pid \<notin> pair_id ` set pairs \<Longrightarrow>
   filter (onCollision_about pid) (concat (map (collide_calls m) pairs)) = []"
  by (induction pairs) (auto simp: filter_collide_calls)

lemma filter_all_pairs:
  "distinct (map pair_id pairs) \<Longrightarrow> p \<in> set pairs \<Longrightarrow>
   filter (onCollision_about (pair_id p)) (concat (map (collide_calls m) pairs)) = pair_hooks m p"
proof (induction pairs)
  case Nil
  then show ?case by simp
next
  case (Cons q pairs)
  show ?case
  proof (cases "q = p")
    case True
    have "pair_id p \<notin> pair_id ` set pairs" using Cons.prems True by simp
    then show ?thesis using True by (simp add: filter_collide_calls filter_other_pairs)
  next
    case False
    then have mem: "p \<in> set pairs" using Cons.prems by simp
    then have "pair_id q \<noteq> pair_id p" using Cons.prems by force
    then show ?thesis using Cons.IH Cons.prems mem by (simp add: filter_collide_calls)
  qed
qed

lemma new_calls_step:
  "new_calls m (step K dt m)
     = before_calls dt (objects (physics m)) @
       Integrate dt # concat (map (collide_calls m) (step_pairs K dt m)) @
       after_calls dt (objects (physics m))"
  by (simp add: new_calls_def step_trace)

lemma step_collision_calls:
  assumes "distinct (map pair_id (step_pairs K dt m))" and "p \<in> set (step_pairs K dt m)"
  shows "filter (onCollision_about (pair_id p)) (new_calls m (step K dt m)) = pair_hooks m p"
  using assms
  by (simp add: new_calls_step filter_before_calls filter_after_calls filter_all_pairs)

text \<open>
  C2. In a step, for a contact pair that Matter reports (pairs are told apart by their
  ids): when both bodies are registered to game objects with an \<open>onCollision\<close> method, the
  \<open>onCollision\<close> calls made for that pair are exactly two, the first on the owner of
  \<open>bodyA\<close> with the owner of \<open>bodyB\<close> as its argument, the second the other way round;
  when one of the bodies is registered to no game object, as a boundary wall is, no
  \<open>onCollision\<close> call is made for that pair.
\<close>

theorem collision_hooks_both_sides:
  assumes "distinct (map pair_id (step_pairs K dt m))" and "p \<in> set (step_pairs K dt m)"
  shows
    "(bodyToObject (physics m) (bodyA p) = Some objA \<and>
      bodyToObject (physics m) (bodyB p) = Some objB \<and>
      hasOnCollision objA \<and> hasOnCollision objB \<longrightarrow>
        filter (onCollision_about (pair_id p)) (new_calls m (step K dt m))
          = [Hook (eid objA) ''onCollision'' [JEntity (eid objB), JPairRef (pair_id p)],
             Hook (eid objB) ''onCollision'' [JEntity (eid objA), JPairRef (pair_id p)]]) \<and>
     (bodyToObject (physics m) (bodyA p) = None \<or> bodyToObject (physics m) (bodyB p) = None \<longrightarrow>
        filter (onCollision_about (pair_id p)) (new_calls m (step K dt m)) = [])"
proof -
  have "filter (onCollision_about (pair_id p)) (new_calls m (step K dt m)) = pair_hooks m p"
    using assms by (rule step_collision_calls)
  then show ?thesis
    by (auto simp: pair_hooks_def onCollision_calls_def split: option.splits)
qed

lemma ball_and_mouse_lookup:
  "bodyToObject (physics ball_and_mouse) 10 = Some ball1"
  "bodyToObject (physics ball_and_mouse) 20 = Some mouse2"
  "bodyToObject (physics ball_and_mouse) 1 = None"
  "objects (physics ball_and_mouse) = [ball1, mouse2]"
  "trace ball_and_mouse = []"
  by (simp_all add: ball_and_mouse_def addObject_def Let_def add_body_def set_add_def
      ball1_def mouse2_def boot_def fresh_engine_def GameLoop_new_def PhysicsEngine_new_def addBoundaries_def
      unstarted_def emit_trace' listener_calls_def)

lemma two_contacts_pairs:
  "step_pairs two_contacts dt m =
     [\<lparr>pair_id = 1, bodyA = 10, bodyB = 20\<rparr>, \<lparr>pair_id = 2, bodyA = 10, bodyB = 1\<rparr>]"
  by (simp add: step_pairs_def two_contacts_def Let_def)

theorem collision_hooks_both_sides_witness:
  "filter (onCollision_about 1)
     (new_calls ball_and_mouse (step two_contacts (1667 / 100) ball_and_mouse))
     = [Hook 1 ''onCollision'' [JEntity 2, JPairRef 1],
        Hook 2 ''onCollision'' [JEntity 1, JPairRef 1]] \<and>
   filter (onCollision_about 2)
     (new_calls ball_and_mouse (step two_contacts (1667 / 100) ball_and_mouse)) = []"
proof -
  let ?p1 = "\<lparr>pair_id = 1, bodyA = 10, bodyB = 20\<rparr>"
  let ?p2 = "\<lparr>pair_id = 2, bodyA = 10, bodyB = 1\<rparr>"
  have d: "distinct (map pair_id (step_pairs two_contacts (1667 / 100) ball_and_mouse))"
    by (simp add: two_contacts_pairs)
  have m1: "?p1 \<in> set (step_pairs two_contacts (1667 / 100) ball_and_mouse)"
    by (simp add: two_contacts_pairs)
  have m2: "?p2 \<in> set (step_pairs two_contacts (1667 / 100) ball_and_mouse)"
    by (simp add: two_contacts_pairs)
  have h: "hasOnCollision ball1" "hasOnCollision mouse2" "eid ball1 = 1" "eid mouse2 = 2"
    by (simp_all add: ball1_def mouse2_def)
  show ?thesis
    using collision_hooks_both_sides [OF d m1, of ball1 mouse2]
      collision_hooks_both_sides [OF d m2, of ball1 mouse2]
      ball_and_mouse_lookup h
    by simp
qed

section \<open>GameLoop: frames\<close>

lemma call_render_fields [simp]:
  "physics (call_render K m) = physics m"
  "gloop (call_render K m) = gloop m"
  "heap (call_render K m) = heap m"
  "listeners (call_render K m) = listeners m"
  "trace (call_render K m) = trace m @ [Render]"
  by (simp_all add: call_render_def)

lemma integrations_append [simp]: "integrations (xs @ ys) = integrations xs @ integrations ys"
  by (simp add: integrations_def)

lemma integrations_Cons [simp]:
  "integrations (Integrate d # xs) = d # integrations xs"
  "integrations (Render # xs) = integrations xs"
  "integrations (Hook e mth args # xs) = integrations xs"
  "integrations (Listener cb data # xs) = integrations xs"
  "integrations [] = []"
  by (simp_all add: integrations_def)

lemma integrations_hooks:
  "integrations (before_calls dt objs) = []"
  "integrations (after_calls dt objs) = []"
  "integrations (listener_calls m event data) = []"
  "integrations (onCollision_calls objA objB pid) = []"
proof -
  show "integrations (before_calls dt objs) = []"
    by (induction objs) (simp_all add: before_calls_def)
  show "integrations (after_calls dt objs) = []"
    by (induction objs) (simp_all add: after_calls_def)
  have "integrations (map (\<lambda>cb. Listener cb data) cbs) = []" for cbs
    by (induction cbs) simp_all
  then show "integrations (listener_calls m event data) = []"
    by (simp add: listener_calls_def)
  show "integrations (onCollision_calls objA objB pid) = []"
    by (simp add: onCollision_calls_def)
qed

lemma integrations_collide: "integrations (concat (map (collide_calls m) pairs)) = []"
proof (induction pairs)
  case Nil
  show ?case by simp
next
  case (Cons p pairs)
  have "integrations (collide_calls m p) = []"
    by (simp add: collide_calls_def integrations_hooks split: option.splits)
  then show ?case using Cons.IH by simp
qed

lemma integrations_step: "integrations (new_calls m (step K dt m)) = [dt]"
  by (simp add: new_calls_step integrations_hooks integrations_collide)




lemma step_trace_prefix: "trace (step K dt m) = trace m @ new_calls m (step K dt m)"
  by (simp add: new_calls_def step_trace)


lemma frame_running:
  assumes "loop_state (gloop m) = RUNNING"
  shows "new_calls m (frame K timestamp m)
           = new_calls (m\<lparr>gloop := (gloop m)\<lparr>lastTimestamp := timestamp\<rparr>\<rparr>)
               (step K (frame_dt timestamp (lastTimestamp (gloop m)) (maxDt (gloop m)))
                  (m\<lparr>gloop := (gloop m)\<lparr>lastTimestamp := timestamp\<rparr>\<rparr>)) @
             Render #
             listener_calls m ''loop:frame''
               (JObj [(''dt'', JNum (frame_dt timestamp (lastTimestamp (gloop m)) (maxDt (gloop m)))),
                      (''elapsed'', JNum (elapsed (gloop m)
                          + frame_dt timestamp (lastTimestamp (gloop m)) (maxDt (gloop m))))])"
    and "elapsed (gloop (frame K timestamp m))
           = elapsed (gloop m) + frame_dt timestamp (lastTimestamp (gloop m)) (maxDt (gloop m))"
    and "lastTimestamp (gloop (frame K timestamp m)) = timestamp"
    and "loop_state (gloop (frame K timestamp m)) = RUNNING"
    and "physics (frame K timestamp m) = physics m"
proof -
  let ?dt = "frame_dt timestamp (lastTimestamp (gloop m)) (maxDt (gloop m))"
  let ?m1 = "m\<lparr>gloop := (gloop m)\<lparr>lastTimestamp := timestamp\<rparr>\<rparr>"
  let ?m2 = "step K ?dt ?m1"
  define X where "X = new_calls ?m1 ?m2"
  have s: "physics ?m2 = physics m" "gloop ?m2 = gloop ?m1" "listeners ?m2 = listeners m"
    using step_fields [of K ?dt ?m1] by simp_all
  have tr: "trace ?m2 = trace m @ X"
    using step_trace_prefix [of K ?dt ?m1] by (simp add: X_def)
  have "trace (frame K timestamp m)
          = trace m @ X @ Render #
            listener_calls m ''loop:frame''
              (JObj [(''dt'', JNum ?dt), (''elapsed'', JNum (elapsed (gloop m) + ?dt))])"
    using assms s tr by (simp add: frame_def Let_def emit_trace' listener_calls_def)
  then have "new_calls m (frame K timestamp m)
          = X @ Render #
            listener_calls m ''loop:frame''
              (JObj [(''dt'', JNum ?dt), (''elapsed'', JNum (elapsed (gloop m) + ?dt))])"
    by (simp add: new_calls_def)
  then show "new_calls m (frame K timestamp m)
           = new_calls ?m1 ?m2 @ Render #
             listener_calls m ''loop:frame''
               (JObj [(''dt'', JNum ?dt), (''elapsed'', JNum (elapsed (gloop m) + ?dt))])"
    by (simp add: X_def)
  show "elapsed (gloop (frame K timestamp m)) = elapsed (gloop m) + ?dt"
    using assms s by (simp add: frame_def Let_def)
  show "lastTimestamp (gloop (frame K timestamp m)) = timestamp"
    using assms s by (simp add: frame_def Let_def)
  show "loop_state (gloop (frame K timestamp m)) = RUNNING"
    using assms s by (simp add: frame_def Let_def)
  show "physics (frame K timestamp m) = physics m"
    using assms s by (simp add: frame_def Let_def)
qed


lemma loop_fields_play:
  "maxDt (gloop (play K m)) = maxDt (gloop m)"
  "loop_state (gloop (play K m)) = RUNNING"
  "lastTimestamp (gloop (play K m)) = (if loop_state (gloop m) = RUNNING then lastTimestamp (gloop m) else 0)"
  by (simp_all add: play_def Let_def takeSnapshot_def schedule_frame_def requestAnimationFrame_def)





lemma loop_fields_frame:
  "maxDt (gloop (frame K timestamp m)) = maxDt (gloop m)"
  "loop_state (gloop (frame K timestamp m)) = loop_state (gloop m)"
  "lastTimestamp (gloop (frame K timestamp m))
     = (if loop_state (gloop m) = RUNNING then timestamp else lastTimestamp (gloop m))"
  by (simp_all add: frame_def Let_def step_fields schedule_frame_def requestAnimationFrame_def)







text \<open>
  The hypothesis on the timestamps matters only for a frame whose timestamp is exactly 0,
  which \<open>_frame\<close> cannot tell from "no frame yet": the frame after it is stepped by the
  nominal value.
\<close>

lemma frame_after_timestamp_zero:
  "loop_state (gloop (frame idle_code 0 (play idle_code boot))) = RUNNING \<and>
   integrations (new_calls (frame idle_code 0 (play idle_code boot))
      (frame idle_code 20 (frame idle_code 0 (play idle_code boot)))) = [1667 / 100]"
proof -
  let ?m0 = "play idle_code boot"
  let ?m1 = "frame idle_code 0 ?m0"
  have b: "loop_state (gloop boot) \<noteq> RUNNING" "maxDt (gloop boot) = 50"
    by (simp_all add: boot_def GameLoop_new_def)
  have p: "loop_state (gloop ?m0) = RUNNING" "maxDt (gloop ?m0) = 50"
    using b by (simp_all add: loop_fields_play)
  have q: "loop_state (gloop ?m1) = RUNNING" "lastTimestamp (gloop ?m1) = 0"
    using frame_running [OF p(1), of idle_code 0] by simp_all
  have r: "maxDt (gloop ?m1) = 50"
    using p by (simp add: loop_fields_frame)
  have i: "integrations (new_calls ?m1 (frame idle_code 20 ?m1)) = [1667 / 100]"
    using frame_running(1) [OF q(1), of idle_code 20] q(2) r
      integrations_step [of "?m1\<lparr>gloop := (gloop ?m1)\<lparr>lastTimestamp := 20\<rparr>\<rparr>" idle_code "1667 / 100"]
    by (simp add: frame_dt_def integrations_hooks)
  show ?thesis using q(1) i by simp
qed

section \<open>PhysicsEngine: the pre-update hook\<close>

lemma integrate_not_in_before_calls: "Integrate d \<notin> set (before_calls dt objs)"
  by (auto simp: before_calls_def)

lemma takeWhile_until: "\<forall>x \<in> set xs. P x \<Longrightarrow> \<not> P y \<Longrightarrow> takeWhile P (xs @ y # ys) = xs"
  by (induction xs) auto

text \<open>
  In a step, the calls made before \<open>Engine.update\<close> are the \<open>onBeforeUpdate\<close> calls, one
  for each tracked game object that has the method, in the order of the Set, each with
  the argument list \<open>(dt, engine)\<close>.
\<close>

lemma before_calls_precede_integrate:
  "takeWhile (\<lambda>c. c \<noteq> Integrate dt) (new_calls m (step K dt m))
     = map (\<lambda>obj. Hook (eid obj) ''onBeforeUpdate'' [JNum dt, JEngine])
         (filter hasOnBeforeUpdate (objects (physics m)))"
proof -
  have "\<forall>c \<in> set (before_calls dt (objects (physics m))). c \<noteq> Integrate dt"
    using integrate_not_in_before_calls [of dt dt] by auto
  then have "takeWhile (\<lambda>c. c \<noteq> Integrate dt) (new_calls m (step K dt m))
          = before_calls dt (objects (physics m))"
    by (simp add: new_calls_step takeWhile_until)
  then show ?thesis by (simp add: before_calls_def)
qed

lemma mouse_alone_objects:
  "objects (physics mouse_alone) = [mouse2]" "trace mouse_alone = []"
  by (simp_all add: mouse_alone_def addObject_def Let_def add_body_def set_add_def
      mouse2_def boot_def fresh_engine_def GameLoop_new_def PhysicsEngine_new_def addBoundaries_def
      unstarted_def emit_trace' listener_calls_def)

text \<open>
  C3 fails on the code. With a mouse as the only game object, a step of 16.67 calls the
  mouse's \<open>onBeforeUpdate\<close> once, before \<open>Engine.update\<close>, but with the argument list
  \<open>(dt, engine)\<close>: the method's parameter \<open>engine\<close> is the number 16.67, and the world it
  reads from it is \<open>undefined\<close>; called with the engine alone it would be the Matter world.
\<close>

theorem step_hands_dt_to_hook:
  "new_calls mouse_alone (step idle_code (1667 / 100) mouse_alone)
     = [Hook 2 ''onBeforeUpdate'' [JNum (1667 / 100), JEngine], Integrate (1667 / 100)] \<and>
   param 0 [JNum (1667 / 100), JEngine] = JNum (1667 / 100) \<and>
   Mouse_onBeforeUpdate_world [JNum (1667 / 100), JEngine] = Inr JUndefined \<and>
   Mouse_onBeforeUpdate_world [JEngine] = Inr JWorld"
proof -
  have p: "step_pairs idle_code (1667 / 100) mouse_alone = []"
    by (simp add: step_pairs_def idle_code_def Let_def)
  have "new_calls mouse_alone (step idle_code (1667 / 100) mouse_alone)
     = [Hook 2 ''onBeforeUpdate'' [JNum (1667 / 100), JEngine], Integrate (1667 / 100)]"
    by (simp add: new_calls_step p mouse_alone_objects before_calls_def after_calls_def mouse2_def)
  then show ?thesis
    by (simp add: param_def Mouse_onBeforeUpdate_world_def Mouse_isGrounded_world_def get_world_def)
qed

section \<open>PhysicsEngine: what adding and removing leave\<close>

lemma fold_add_body:
  "world_bodies (fold (add_body e) bs p) = world_bodies p @ bs \<and>
   objects (fold (add_body e) bs p) = objects p \<and>
   bodyToObject (fold (add_body e) bs p) x = (if x \<in> set bs then Some e else bodyToObject p x)"
proof (induction bs arbitrary: p)
  case Nil
  show ?case by simp
next
  case (Cons b bs)
  show ?case using Cons.IH [of "add_body e b p"] by (auto simp: add_body_def)
qed

lemma fold_add_constraint:
  "world_bodies (fold add_constraint cs p) = world_bodies p \<and>
   objects (fold add_constraint cs p) = objects p \<and>
   bodyToObject (fold add_constraint cs p) = bodyToObject p"
  by (induction cs arbitrary: p) (simp_all add: add_constraint_def)



lemma addObject_physics:
  "world_bodies (physics (addObject K e m)) = world_bodies (physics m) @ bodies e"
  "objects (physics (addObject K e m)) = set_add e (objects (physics m))"
  "bodyToObject (physics (addObject K e m)) x
     = (if x \<in> set (bodies e) then Some e else bodyToObject (physics m) x)"
  by (simp_all add: addObject_def Let_def fold_add_body fold_add_constraint)



lemma fresh_engine_physics:
  "world_bodies (physics fresh_engine) = [1, 2, 3, 4]"
  "objects (physics fresh_engine) = []"
  "bodyToObject (physics fresh_engine) = Map.empty"
  "listeners fresh_engine = Map.empty"
  by (simp_all add: fresh_engine_def PhysicsEngine_new_def addBoundaries_def unstarted_def Let_def)

section \<open>PhysicsEngine: body ownership\<close>

lemma for_of_until_null:
  assumes "\<And>s. f None s = (Some e, s)" and "\<And>y s. f (Some y) s = (None, g y s)"
  shows "for_of xs f s
           = (if None \<in> set xs then Some e else None,
              fold g (map the (takeWhile (\<lambda>x. x \<noteq> None) xs)) s)"
proof (induction xs arbitrary: s)
  case Nil
  show ?case by simp
next
  case (Cons x xs)
  show ?case
  proof (cases x)
    case None
    then show ?thesis using assms(1) by simp
  next
    case (Some y)
    then show ?thesis using assms(2) Cons.IH by auto
  qed
qed

lemma add_body_loop:
  "for_of bs (world_add_body r) s
     = (if None \<in> set bs then Some (TypeError [Lit ''Cannot read properties of null'']) else None,
        fold (\<lambda>b s. s\<lparr>base := (base s)\<lparr>physics :=
                  (physics (base s))\<lparr>world_bodies := world_bodies (physics (base s)) @ [b]\<rparr>\<rparr>,
                       owner := (owner s)(b \<mapsto> r)\<rparr>)
          (map the (takeWhile (\<lambda>x. x \<noteq> None) bs)) s)"
  by (rule for_of_until_null) (simp_all add: world_add_body_def)

lemma remove_body_loop:
  "for_of bs world_remove_body s
     = (if None \<in> set bs then Some (TypeError [Lit ''Cannot read properties of null'']) else None,
        fold (\<lambda>b s. s\<lparr>base := (base s)\<lparr>physics :=
                  (physics (base s))\<lparr>world_bodies := remove1 b (world_bodies (physics (base s)))\<rparr>\<rparr>,
                       owner := (owner s)(b := None)\<rparr>)
          (map the (takeWhile (\<lambda>x. x \<noteq> None) bs)) s)"
  by (rule for_of_until_null) (simp_all add: world_remove_body_def)

lemma add_constraint_loop:
  "for_of cs world_add_constraint s
     = (if None \<in> set cs then Some (TypeError [Lit ''Cannot read properties of null'']) else None,
        fold (\<lambda>c s. s\<lparr>base := (base s)\<lparr>physics := add_constraint c (physics (base s))\<rparr>\<rparr>)
          (map the (takeWhile (\<lambda>x. x \<noteq> None) cs)) s)"
  by (rule for_of_until_null) (simp_all add: world_add_constraint_def)

lemma remove_constraint_loop:
  "for_of cs world_remove_constraint s
     = (if None \<in> set cs then Some (TypeError [Lit ''Cannot read properties of null'']) else None,
        fold (\<lambda>c s. s\<lparr>base := (base s)\<lparr>physics := remove_constraint c (physics (base s))\<rparr>\<rparr>)
          (map the (takeWhile (\<lambda>x. x \<noteq> None) cs)) s)"
  by (rule for_of_until_null) (simp_all add: world_remove_constraint_def)


lemma fold_remove_bodies:
  "mset (bodies_in_world (fold (\<lambda>b s. s\<lparr>base := (base s)\<lparr>physics :=
                  (physics (base s))\<lparr>world_bodies := remove1 b (world_bodies (physics (base s)))\<rparr>\<rparr>,
                       owner := (owner s)(b := None)\<rparr>) bs s))
     = mset (bodies_in_world s) - mset bs"
  "owner (fold (\<lambda>b s. s\<lparr>base := (base s)\<lparr>physics :=
                  (physics (base s))\<lparr>world_bodies := remove1 b (world_bodies (physics (base s)))\<rparr>\<rparr>,
                       owner := (owner s)(b := None)\<rparr>) bs s) x
     = (if x \<in> set bs then None else owner s x)"
  "tracked (fold (\<lambda>b s. s\<lparr>base := (base s)\<lparr>physics :=
                  (physics (base s))\<lparr>world_bodies := remove1 b (world_bodies (physics (base s)))\<rparr>\<rparr>,
                       owner := (owner s)(b := None)\<rparr>) bs s) = tracked s"
  "game_objects (fold (\<lambda>b s. s\<lparr>base := (base s)\<lparr>physics :=
                  (physics (base s))\<lparr>world_bodies := remove1 b (world_bodies (physics (base s)))\<rparr>\<rparr>,
                       owner := (owner s)(b := None)\<rparr>) bs s) = game_objects s"
  by (induction bs arbitrary: s) (simp_all add: bodies_in_world_def)

lemma fold_constraints_kept:
  "bodies_in_world (fold (\<lambda>c s. s\<lparr>base := (base s)\<lparr>physics := add_constraint c (physics (base s))\<rparr>\<rparr>) cs s)
     = bodies_in_world s"
  "owner (fold (\<lambda>c s. s\<lparr>base := (base s)\<lparr>physics := add_constraint c (physics (base s))\<rparr>\<rparr>) cs s) = owner s"
  "tracked (fold (\<lambda>c s. s\<lparr>base := (base s)\<lparr>physics := add_constraint c (physics (base s))\<rparr>\<rparr>) cs s) = tracked s"
  "game_objects (fold (\<lambda>c s. s\<lparr>base := (base s)\<lparr>physics := add_constraint c (physics (base s))\<rparr>\<rparr>) cs s) = game_objects s"
  "bodies_in_world (fold (\<lambda>c s. s\<lparr>base := (base s)\<lparr>physics := remove_constraint c (physics (base s))\<rparr>\<rparr>) cs s)
     = bodies_in_world s"
  "owner (fold (\<lambda>c s. s\<lparr>base := (base s)\<lparr>physics := remove_constraint c (physics (base s))\<rparr>\<rparr>) cs s) = owner s"
  "tracked (fold (\<lambda>c s. s\<lparr>base := (base s)\<lparr>physics := remove_constraint c (physics (base s))\<rparr>\<rparr>) cs s) = tracked s"
  "game_objects (fold (\<lambda>c s. s\<lparr>base := (base s)\<lparr>physics := remove_constraint c (physics (base s))\<rparr>\<rparr>) cs s) = game_objects s"
  by (induction cs arbitrary: s)
    (simp_all add: bodies_in_world_def add_constraint_def remove_constraint_def)

lemma bodies_in_world_simps [simp]:
  "bodies_in_world (s\<lparr>tracked := t\<rparr>) = bodies_in_world s"
  "bodies_in_world (s\<lparr>game_objects := H\<rparr>) = bodies_in_world s"
  "bodies_in_world (s\<lparr>owner := w\<rparr>) = bodies_in_world s"
  "bodies_in_world (s\<lparr>base := emit K event data (base s')\<rparr>) = bodies_in_world s'"
  "bodies_in_world (s\<lparr>base := (base s')\<lparr>trace := t', user := u, heap := h\<rparr>\<rparr>) = bodies_in_world s'"
  by (simp_all add: bodies_in_world_def)




text \<open>
  Otherwise the bodies that the loop reaches leave the world and the Map; the object
  leaves the Set, and is disposed of, only when the loop has not thrown.
\<close>

lemma live_removeObject_fields:
  assumes "None \<notin> set (g_constraints (game_objects s r))"
  shows "mset (bodies_in_world (snd (live_removeObject K D r s)))
           = mset (bodies_in_world s) - mset (reached (game_objects s r))"
    and "owner (snd (live_removeObject K D r s)) x
           = (if x \<in> set (reached (game_objects s r)) then None else owner s x)"
    and "tracked (snd (live_removeObject K D r s)) = tracked s \<or>
         tracked (snd (live_removeObject K D r s)) = removeAll r (tracked s)"
    and "fst (live_removeObject K D r s) \<noteq> None \<longrightarrow>
           tracked (snd (live_removeObject K D r s)) = tracked s \<and>
           game_objects (snd (live_removeObject K D r s)) = game_objects s"
    and "fst (live_removeObject K D r s) = None \<longrightarrow>
           tracked (snd (live_removeObject K D r s)) = removeAll r (tracked s) \<and>
           (game_objects (snd (live_removeObject K D r s)) = game_objects s \<or>
            game_objects (snd (live_removeObject K D r s))
              = (game_objects s)(r := D r (game_objects s r)))"
  using assms
  by (simp_all add: live_removeObject_def Let_def remove_constraint_loop remove_body_loop
      fold_constraints_kept fold_remove_bodies reached_def live_dispose_def
      split: sum.splits prod.splits)




















section \<open>PhysicsEngine: entities and game objects by reference\<close>

lemma guarded_listener_physics:
  "try_catch (call_listener K cb data) (\<lambda>err. console_error msg err) (m\<lparr>physics := p\<rparr>)
     = (fst (try_catch (call_listener K cb data) (\<lambda>err. console_error msg err) m),
        (snd (try_catch (call_listener K cb data) (\<lambda>err. console_error msg err) m))\<lparr>physics := p\<rparr>)"
  by (simp add: try_catch_def call_listener_def console_error_def Let_def split: option.splits)

lemma guarded_loop_physics:
  "for_of cbs (\<lambda>cb. try_catch (call_listener K cb data) (\<lambda>err. console_error msg err))
       (m\<lparr>physics := p\<rparr>)
     = (fst (for_of cbs (\<lambda>cb. try_catch (call_listener K cb data) (\<lambda>err. console_error msg err)) m),
        (snd (for_of cbs (\<lambda>cb. try_catch (call_listener K cb data) (\<lambda>err. console_error msg err)) m))
          \<lparr>physics := p\<rparr>)"
proof (induction cbs arbitrary: m)
  case Nil
  show ?case by simp
next
  case (Cons cb cbs)
  let ?g = "try_catch (call_listener K cb data) (\<lambda>err. console_error msg err)"
  obtain r m' where st: "?g m = (r, m')" by (cases "?g m")
  have r: "r = None" using guarded_listener_fst [of K cb data msg m] st by simp
  have "?g (m\<lparr>physics := p\<rparr>) = (None, m'\<lparr>physics := p\<rparr>)"
    using guarded_listener_physics [where m = m and p = p and K = K and cb = cb and data = data
        and msg = msg] st r by simp
  then show ?case using Cons.IH [of m'] st r by simp
qed

lemma emit_physics_update:
  "emit K event data (m\<lparr>physics := p\<rparr>) = (emit K event data m)\<lparr>physics := p\<rparr>"
  by (simp add: emit_def deliver_def guarded_loop_physics split: option.splits)

lemma fold_add_body_is:
  "fold (add_body e) bs p
     = p\<lparr>world_bodies := world_bodies p @ bs,
         bodyToObject := (\<lambda>x. if x \<in> set bs then Some e else bodyToObject p x)\<rparr>"
proof (induction bs arbitrary: p)
  case Nil
  show ?case by simp
next
  case (Cons b bs)
  show ?case
    by (simp only: fold_simps Cons.IH [of "add_body e b p"])
       (rule engine.equality; auto simp: add_body_def)
qed

lemma fold_add_constraint_is:
  "fold add_constraint cs p = p\<lparr>world_constraints := world_constraints p @ cs\<rparr>"
  by (induction cs arbitrary: p) (simp_all add: add_constraint_def)

lemma fold_world_add_body_is:
  "fold (\<lambda>b s. s\<lparr>base := (base s)\<lparr>physics :=
                  (physics (base s))\<lparr>world_bodies := world_bodies (physics (base s)) @ [b]\<rparr>\<rparr>,
                       owner := (owner s)(b \<mapsto> r)\<rparr>) bs s
     = s\<lparr>base := (base s)\<lparr>physics :=
                  (physics (base s))\<lparr>world_bodies := world_bodies (physics (base s)) @ bs\<rparr>\<rparr>,
         owner := (\<lambda>x. if x \<in> set bs then Some r else owner s x)\<rparr>"
proof (induction bs arbitrary: s)
  case Nil
  show ?case by simp
next
  case (Cons b bs)
  show ?case
    by (simp only: fold_simps Cons.IH)
       (rule world.equality; auto)
qed

lemma fold_world_add_constraint_is:
  "fold (\<lambda>c s. s\<lparr>base := (base s)\<lparr>physics := add_constraint c (physics (base s))\<rparr>\<rparr>) cs s
     = s\<lparr>base := (base s)\<lparr>physics :=
                  (physics (base s))\<lparr>world_constraints := world_constraints (physics (base s)) @ cs\<rparr>\<rparr>\<rparr>"
  by (induction cs arbitrary: s) (simp_all add: add_constraint_def)

lemma all_there [simp]:
  "map the (takeWhile (\<lambda>x. x \<noteq> None) (map Some xs)) = xs"
  "map the (takeWhile (\<lambda>x. \<exists>y. x = Some y) (map Some xs)) = xs"
  by (induction xs) simp_all

lemma none_missing [simp]: "None \<notin> set (map Some xs)"
  by auto

lemma set_add_map:
  assumes "inj E"
  shows "map E (set_add r rs) = set_add (E r) (map E rs)"
  using assms by (auto simp: set_add_def inj_def)

text \<open>
  \<open>addObject\<close> on a reference whose game object is the entity \<open>E r\<close> returns, and does what
  \<open>addObject\<close> on that entity does.
\<close>

lemma addObject_by_reference:
  assumes "\<forall>r. eid (E r) = r" and "game_objects s r = gobject_of (E r)"
  shows "fst (live_addObject K r s) = None"
    and "as_machine E (snd (live_addObject K r s)) = addObject K (E r) (as_machine E s)"
proof -
  have inj: "inj E" using assms(1) by (metis injI)
  have m: "(\<lambda>b. map_option E (if b \<in> set (bodies (E r)) then Some r else owner s b))
             = (\<lambda>x. if x \<in> set (bodies (E r)) then Some (E r) else map_option E (owner s x))"
    by auto
  show "fst (live_addObject K r s) = None"
    using assms(2) by (simp add: live_addObject_def Let_def gobject_of_def add_body_loop
        add_constraint_loop fold_world_add_body_is fold_world_add_constraint_is)
  have l: "snd (live_addObject K r s)
        = s\<lparr>tracked := set_add r (tracked s),
            owner := (\<lambda>x. if x \<in> set (bodies (E r)) then Some r else owner s x),
            base := (emit K ''physics:object-added'' (JEntity r) (base s))
               \<lparr>physics := (physics (base s))
                  \<lparr>world_bodies := world_bodies (physics (base s)) @ bodies (E r),
                   world_constraints := world_constraints (physics (base s)) @ constraints (E r)\<rparr>\<rparr>\<rparr>"
    using assms(2) by (simp add: live_addObject_def Let_def gobject_of_def add_body_loop
        add_constraint_loop fold_world_add_body_is fold_world_add_constraint_is
        emit_physics_update cong: if_cong)
  have a: "addObject K (E r) (as_machine E s)
        = (emit K ''physics:object-added'' (JEntity r) (base s))
            \<lparr>physics := (physics (base s))
               \<lparr>objects := set_add (E r) (map E (tracked s)),
                world_bodies := world_bodies (physics (base s)) @ bodies (E r),
                bodyToObject := (\<lambda>x. if x \<in> set (bodies (E r)) then Some (E r)
                                     else map_option E (owner s x)),
                world_constraints := world_constraints (physics (base s)) @ constraints (E r)\<rparr>\<rparr>"
    using assms(1) by (simp add: as_machine_def addObject_def fold_add_body_is
        fold_add_constraint_is emit_physics_update cong: if_cong)
  show "as_machine E (snd (live_addObject K r s)) = addObject K (E r) (as_machine E s)"
    unfolding l a
    by (simp add: as_machine_def set_add_map [OF inj] m)
qed

lemma call_hook_physics_update:
  "call_hook K obj method args (m\<lparr>physics := p\<rparr>) = (call_hook K obj method args m)\<lparr>physics := p\<rparr>"
  by (simp add: call_hook_def Let_def)

lemma physics_update_last:
  "m\<lparr>physics := p, trace := t, user := u, heap := h\<rparr>
     = m\<lparr>trace := t, user := u, heap := h, physics := p\<rparr>"
  by simp

lemma fold_remove_body_is:
  "fold remove_body bs p
     = p\<lparr>world_bodies := fold remove1 bs (world_bodies p),
         bodyToObject := (\<lambda>x. if x \<in> set bs then None else bodyToObject p x)\<rparr>"
proof (induction bs arbitrary: p)
  case Nil
  show ?case by simp
next
  case (Cons b bs)
  show ?case
    by (simp only: fold_simps Cons.IH [of "remove_body b p"])
       (rule engine.equality; auto simp: remove_body_def)
qed

lemma fold_remove_constraint_is:
  "fold remove_constraint cs p = p\<lparr>world_constraints := fold remove1 cs (world_constraints p)\<rparr>"
  by (induction cs arbitrary: p) (simp_all add: remove_constraint_def)

lemma fold_world_remove_body_is:
  "fold (\<lambda>b s. s\<lparr>base := (base s)\<lparr>physics :=
                  (physics (base s))\<lparr>world_bodies := remove1 b (world_bodies (physics (base s)))\<rparr>\<rparr>,
                       owner := (owner s)(b := None)\<rparr>) bs s
     = s\<lparr>base := (base s)\<lparr>physics :=
                  (physics (base s))\<lparr>world_bodies := fold remove1 bs (world_bodies (physics (base s)))\<rparr>\<rparr>,
         owner := (\<lambda>x. if x \<in> set bs then None else owner s x)\<rparr>"
proof (induction bs arbitrary: s)
  case Nil
  show ?case by simp
next
  case (Cons b bs)
  show ?case
    by (simp only: fold_simps Cons.IH)
       (rule world.equality; auto)
qed

lemma fold_world_remove_constraint_is:
  "fold (\<lambda>c s. s\<lparr>base := (base s)\<lparr>physics := remove_constraint c (physics (base s))\<rparr>\<rparr>) cs s
     = s\<lparr>base := (base s)\<lparr>physics :=
          (physics (base s))\<lparr>world_constraints := fold remove1 cs (world_constraints (physics (base s)))\<rparr>\<rparr>\<rparr>"
  by (induction cs arbitrary: s) (simp_all add: remove_constraint_def)

lemma removeAll_map:
  assumes "inj E"
  shows "removeAll (E r) (map E rs) = map E (removeAll r rs)"
  using assms by (induction rs) (auto simp: inj_def)

text \<open>The same for \<open>removeObject\<close>, whatever \<open>dispose()\<close> then does to the game object.\<close>

lemma removeObject_by_reference:
  assumes "\<forall>r. eid (E r) = r" and "game_objects s r = gobject_of (E r)"
  shows "fst (live_removeObject K D r s) = None"
    and "as_machine E (snd (live_removeObject K D r s)) = removeObject K (E r) (as_machine E s)"
proof -
  have inj: "inj E" using assms(1) by (metis injI)
  let ?X = "if hasDispose (E r) then call_hook K (E r) ''dispose'' [] (base s) else base s"
  have m: "(\<lambda>b. map_option E (if b \<in> set (bodies (E r)) then None else owner s b))
             = (\<lambda>x. if x \<in> set (bodies (E r)) then None else map_option E (owner s x))"
    by auto
  show "fst (live_removeObject K D r s) = None"
    using assms(2) by (simp add: live_removeObject_def Let_def gobject_of_def remove_body_loop
        remove_constraint_loop fold_world_remove_body_is fold_world_remove_constraint_is)
  have l: "base (snd (live_removeObject K D r s))
        = (emit K ''physics:object-removed'' (JEntity r) ?X)
               \<lparr>physics := (physics (base s))
                  \<lparr>world_constraints := fold remove1 (constraints (E r)) (world_constraints (physics (base s))),
                   world_bodies := fold remove1 (bodies (E r)) (world_bodies (physics (base s)))\<rparr>\<rparr>"
    "tracked (snd (live_removeObject K D r s)) = removeAll r (tracked s)"
    "owner (snd (live_removeObject K D r s))
        = (\<lambda>x. if x \<in> set (bodies (E r)) then None else owner s x)"
    using assms by (simp_all add: live_removeObject_def Let_def gobject_of_def remove_body_loop
        remove_constraint_loop fold_world_remove_body_is fold_world_remove_constraint_is
        live_dispose_def call_hook_def physics_update_last emit_physics_update cong: if_cong)
  have a: "removeObject K (E r) (as_machine E s)
        = (emit K ''physics:object-removed'' (JEntity r) ?X)
            \<lparr>physics := (physics (base s))
               \<lparr>objects := map E (removeAll r (tracked s)),
                world_constraints := fold remove1 (constraints (E r)) (world_constraints (physics (base s))),
                world_bodies := fold remove1 (bodies (E r)) (world_bodies (physics (base s))),
                bodyToObject := (\<lambda>x. if x \<in> set (bodies (E r)) then None
                                     else map_option E (owner s x))\<rparr>\<rparr>"
    using assms(1) by (simp add: as_machine_def removeObject_def Let_def fold_remove_body_is
        fold_remove_constraint_is emit_physics_update call_hook_physics_update
        removeAll_map [OF inj] cong: if_cong)
  show "as_machine E (snd (live_removeObject K D r s)) = removeObject K (E r) (as_machine E s)"
    unfolding a
    by (simp add: as_machine_def l m)
qed

lemma removes_by_reference:
  assumes "\<forall>r. eid (E r) = r" and "distinct xs"
    and "\<forall>r \<in> set xs. game_objects s r = gobject_of (E r)"
  shows "fst (for_of xs (live_removeObject K D) s) = None \<and>
         as_machine E (snd (for_of xs (live_removeObject K D) s))
           = fold (removeObject K) (map E xs) (as_machine E s)"
  using assms(2,3)
proof (induction xs arbitrary: s)
  case Nil
  show ?case by simp
next
  case (Cons x xs)
  obtain e s1 where st: "live_removeObject K D x s = (e, s1)" by (cases "live_removeObject K D x s")
  have g: "game_objects s x = gobject_of (E x)" using Cons.prems(2) by simp
  have e: "e = None" and a: "as_machine E s1 = removeObject K (E x) (as_machine E s)"
    using removeObject_by_reference [OF assms(1) g, of K D] st by simp_all
  have n: "None \<notin> set (g_constraints (game_objects s x))" using g by (simp add: gobject_of_def)
  have k: "game_objects s1 r = game_objects s r" if "r \<noteq> x" for r
    using live_removeObject_fields(5) [OF n, of K D] st e that by auto
  have "\<forall>r \<in> set xs. game_objects s1 r = gobject_of (E r)"
  proof
    fix r assume r: "r \<in> set xs"
    then have "r \<noteq> x" using Cons.prems(1) by auto
    then show "game_objects s1 r = gobject_of (E r)" using k r Cons.prems(2) by simp
  qed
  then show ?case using Cons.IH [of s1] Cons.prems(1) st e a by simp
qed

lemma clear_by_reference:
  assumes "\<forall>r. eid (E r) = r" and "distinct (tracked s)"
    and "\<forall>r \<in> set (tracked s). game_objects s r = gobject_of (E r)"
  shows "fst (live_clear K D s) = None"
    and "as_machine E (snd (live_clear K D s)) = clear K (as_machine E s)"
  using removes_by_reference [OF assms, of K D]
  by (simp_all add: live_clear_def clear_def as_machine_def)

section \<open>PhysicsEngine: snapshots\<close>

lemma set_body_absorb [simp]: "set_body bs (set_body bs' b) = set_body bs b"
  by (simp add: set_body_def)

lemma fold_restore_body:
  "fold (restore_body obj) bss h
     = fold write_body (filter (\<lambda>bs. bs_id bs \<in> set (bodies obj)) bss) h"
  by (induction bss arbitrary: h) (simp_all add: restore_body_def write_body_def)

lemma restore_loop_writes:
  "restore_loop snaps objs h = fold write_body (snapshot_writes snaps objs) h"
  by (induction snaps objs h rule: restore_loop.induct) (simp_all add: fold_restore_body)

lemma fold_write_body: "fold write_body ws h x = written ws x (h x)"
proof (induction ws arbitrary: h rule: rev_induct)
  case Nil
  show ?case by (simp add: written_def)
next
  case (snoc w ws)
  show ?case
  proof (cases "bs_id w = x")
    case True
    then show ?thesis
      using snoc [of h]
      by (cases "filter (\<lambda>bs. bs_id bs = x) ws") (simp_all add: written_def write_body_def)
  next
    case False
    then show ?thesis using snoc [of h] by (simp add: written_def write_body_def)
  qed
qed

lemma written_twice: "written ws x (written ws x b) = written ws x b"
  by (simp add: written_def split: list.splits)

lemma restore_loop_twice:
  "restore_loop snaps objs (restore_loop snaps objs h) = restore_loop snaps objs h"
proof
  fix x
  show "restore_loop snaps objs (restore_loop snaps objs h) x = restore_loop snaps objs h x"
    by (simp add: restore_loop_writes fold_write_body written_twice)
qed

lemma restoreSnapshot_twice: "restoreSnapshot (restoreSnapshot m) = restoreSnapshot m"
  by (simp add: restoreSnapshot_def restore_loop_twice split: option.splits)

text \<open>
  C5. \<open>takeSnapshot()\<close> followed by two \<open>restoreSnapshot()\<close> leaves the machine as
  \<open>takeSnapshot()\<close> followed by one leaves it: every body has the same position, angle,
  velocity and angular velocity after the second restore as after the first.
\<close>

theorem restore_after_snapshot_idempotent:
  "restoreSnapshot (restoreSnapshot (takeSnapshot m)) = restoreSnapshot (takeSnapshot m) \<and>
   position (heap (restoreSnapshot (restoreSnapshot (takeSnapshot m))) b)
     = position (heap (restoreSnapshot (takeSnapshot m)) b) \<and>
   angle (heap (restoreSnapshot (restoreSnapshot (takeSnapshot m))) b)
     = angle (heap (restoreSnapshot (takeSnapshot m)) b) \<and>
   velocity (heap (restoreSnapshot (restoreSnapshot (takeSnapshot m))) b)
     = velocity (heap (restoreSnapshot (takeSnapshot m)) b) \<and>
   angularVelocity (heap (restoreSnapshot (restoreSnapshot (takeSnapshot m))) b)
     = angularVelocity (heap (restoreSnapshot (takeSnapshot m)) b)"
proof -
  have "restoreSnapshot (restoreSnapshot (takeSnapshot m)) = restoreSnapshot (takeSnapshot m)"
    by (rule restoreSnapshot_twice)
  then show ?thesis by simp
qed








lemma addObject_heap [simp]: "heap (addObject K e m) = heap m"
  by (simp add: addObject_def Let_def)








section \<open>Serialization\<close>

lemma tennis_ball_serialize:
  "\<exists>b. Ball_new 1 (JNum 100) (JNum 200) [(''variant'', JStr ''tennis'')] = Inr b \<and>
       ball_radius b = 12 \<and>
       Ball_serialize b
         = JObj [(''type'', JStr ''ball''), (''x'', JNum 100), (''y'', JNum 200), (''angle'', JNum 0),
                 (''isFixed'', JBool False), (''options'', JObj [(''variant'', JStr ''tennis'')])]"
  by (simp add: Ball_serialize_def Ball_new_def BaseObject_new_def BaseObject_serialize_def
      Ball_type_def Let_def js_or_def js_prop_def truthy_def BaseObject.extend_def
      variant_preset_def VARIANTS_def)

lemma tennis_ball_roundtrip:
  "\<exists>b. Ball_deserialize 2
          (JObj [(''type'', JStr ''ball''), (''x'', JNum 100), (''y'', JNum 200), (''angle'', JNum 0),
                 (''isFixed'', JBool False), (''options'', JObj [(''variant'', JStr ''tennis'')])])
        = Inr b \<and>
       Ball_type b = ''ball'' \<and> ball_variant b = JStr ''tennis'' \<and> ball_radius b = 12 \<and>
       obj_x b = JNum 100 \<and> obj_y b = JNum 200 \<and> obj_angle b = JNum 0 \<and>
       obj_isFixed b = JBool False"
  by (simp add: Ball_deserialize_def get_prop_def opt_prop_def js_prop_def
      Ball_new_def BaseObject_new_def Let_def js_or_def truthy_def BaseObject.extend_def
      Ball_type_def variant_preset_def VARIANTS_def)

text \<open>A variant named after an inherited property makes the constructor throw.\<close>

lemma Ball_new_inherited_variant:
  "Ball_new 1 (JNum 100) (JNum 200) [(''variant'', JStr ''toString'')]
     = Inl (TypeError [Lit ''Cannot read properties of undefined''])"
  by (simp add: Ball_new_def Let_def js_or_def js_prop_def truthy_def variant_preset_def
      VARIANTS_def Object_prototype_keys_def)

lemma js_or_twice: "js_or (js_or a d) d = js_or a d"
  by (simp add: js_or_def)

lemma js_prop_assoc_set: "js_prop k (assoc_set k v ps) = v"
  by (induction ps) (auto simp: js_prop_def)

lemma js_prop_assoc_set_other: "k' \<noteq> k \<Longrightarrow> js_prop k' (assoc_set k v ps) = js_prop k' ps"
  by (induction ps) (auto simp: js_prop_def)

lemma Ball_new_fields:
  assumes "Ball_new n x y options = Inr ball"
  shows "obj_x ball = x" "obj_y ball = y"
    "obj_angle ball = js_or (js_prop ''angle'' options) (JNum 0)"
    "obj_isFixed ball = js_or (js_prop ''isFixed'' options) (JBool False)"
    "obj_options ball = options"
    "ball_variant ball = js_or (js_prop ''variant'' options) (JStr ''bowling'')"
    "variant_preset (ball_variant ball) \<noteq> None"
  using assms
  by (auto simp: Ball_new_def Let_def BaseObject.extend_def BaseObject_new_def split: option.splits)

text \<open>
  A ball that its constructor has made comes back from \<open>deserialize(serialize(ball))\<close>
  with its type, position, angle, fixed flag and variant, whatever options it was made
  with.
\<close>

lemma Ball_roundtrip:
  assumes "Ball_new n x y options = Inr ball"
  shows "\<exists>b. Ball_deserialize n' (Ball_serialize ball) = Inr b \<and>
       Ball_type b = Ball_type ball \<and>
       obj_x b = obj_x ball \<and>
       obj_y b = obj_y ball \<and>
       obj_angle b = obj_angle ball \<and>
       obj_isFixed b = obj_isFixed ball \<and>
       ball_variant b = ball_variant ball"
proof -
  note f = Ball_new_fields [OF assms]
  let ?opts = "[(''angle'', obj_angle ball), (''isFixed'', obj_isFixed ball),
                (''variant'', ball_variant ball)]"
  have v: "js_or (ball_variant ball) (JStr ''bowling'') = ball_variant ball"
    by (simp add: f(6) js_or_twice)
  have d: "Ball_deserialize n' (Ball_serialize ball) = Ball_new n' x y ?opts"
    by (simp add: Ball_serialize_def Ball_deserialize_def BaseObject_serialize_def get_prop_def
        opt_prop_def js_prop_def Ball_type_def f(1,2) v
        js_prop_assoc_set [unfolded js_prop_def])
  obtain p where p: "variant_preset (ball_variant ball) = Some p" using f(7) by auto
  obtain b where b: "Ball_new n' x y ?opts = Inr b"
    using p v by (simp add: Ball_new_def Let_def js_prop_def)
  note g = Ball_new_fields [OF b]
  have "obj_angle b = obj_angle ball" "obj_isFixed b = obj_isFixed ball"
    "ball_variant b = ball_variant ball"
    using g(3,4,6) v by (simp_all add: js_prop_def f(3,4) js_or_twice)
  then show ?thesis using d b g(1,2) f(1,2) by (simp add: Ball_type_def)
qed

text \<open>
  C6 fails on the code for the balloon. A balloon made at (200, 100) with the options
  \<open>{radius: 30, colorIndex: 2}\<close> has radius 30 and serializes with both options, but
  \<open>Balloon.deserialize\<close> hands the constructor only angle, isFixed and colorIndex: the
  balloon that comes back has the default radius 18, and its retained options have lost
  the radius.
\<close>

theorem balloon_radius_lost:
  "balloon_radius (Balloon_new 1 0 0 (JNum 200) (JNum 100)
      [(''radius'', JNum 30), (''colorIndex'', JNum 2)]) = JNum 30 \<and>
   Balloon_serialize (Balloon_new 1 0 0 (JNum 200) (JNum 100)
      [(''radius'', JNum 30), (''colorIndex'', JNum 2)])
     = JObj [(''type'', JStr ''balloon''), (''x'', JNum 200), (''y'', JNum 100),
             (''angle'', JNum 0), (''isFixed'', JBool False),
             (''options'', JObj [(''radius'', JNum 30), (''colorIndex'', JNum 2)])] \<and>
   (\<exists>b. Balloon_deserialize 2 0 0
          (Balloon_serialize (Balloon_new 1 0 0 (JNum 200) (JNum 100)
             [(''radius'', JNum 30), (''colorIndex'', JNum 2)])) = Inr b \<and>
        Balloon_type b = ''balloon'' \<and> balloon_colorIndex b = JNum 2 \<and>
        balloon_radius b = JNum 18 \<and>
        obj_options b = [(''angle'', JNum 0), (''isFixed'', JBool False), (''colorIndex'', JNum 2)])"
  by (simp add: Balloon_serialize_def Balloon_deserialize_def BaseObject_serialize_def get_prop_def
      opt_prop_def js_prop_def Balloon_new_def BaseObject_new_def Let_def BaseObject.extend_def
      Balloon_type_def js_or_def js_nullish_def truthy_def)

section \<open>ObjectRegistry: facts\<close>

lemma map_of_assoc_set: "map_of (assoc_set k v ps) = (map_of ps)(k \<mapsto> v)"
  by (induction ps) auto

lemma registered_snoc:
  "registered (regs @ [(ty, cls, md)]) = register ty cls md (registered regs)"
  by (simp add: registered_def)

lemma registered_lookup:
  "map_of (entries (registered regs)) ty
     = map_option (\<lambda>(cls, md). \<lparr>ObjectClass = cls, entry_metadata = md\<rparr>) (map_of (rev regs) ty)"
proof (induction regs rule: rev_induct)
  case Nil
  show ?case by (simp add: registered_def ObjectRegistry_new_def)
next
  case (snoc r regs)
  obtain t c md where r: "r = (t, c, md)" by (cases r)
  show ?case using snoc by (simp add: r registered_snoc register_def map_of_assoc_set)
qed

lemma never_registered:
  "ty \<notin> JStr ` fst ` set regs \<Longrightarrow> registry_get (registered regs) ty = None"
proof (cases ty)
  case (JStr t)
  assume "ty \<notin> JStr ` fst ` set regs"
  then have "t \<notin> fst ` set (rev regs)" using JStr by auto
  then have "map_of (rev regs) t = None" by (simp add: map_of_eq_None_iff)
  then show ?thesis using JStr by (simp add: registry_get_def registered_lookup)
qed (simp_all add: registry_get_def)

text \<open>
  C8. On a registry built by any list of \<open>register\<close> calls: \<open>create\<close> with a type that was
  never registered throws the error "Unknown object type" and returns no object;
  \<open>deserialize\<close> of a record whose type was never registered throws the error "Cannot
  deserialize unknown type"; for a registered type \<open>create\<close> is what the constructor of
  the class registered last under that type returns (with \<open>{}\<close> for missing options), and
  \<open>deserialize\<close> is what its static deserializer returns.
\<close>

theorem unknown_type_throws:
  \<open>(ty \<notin> JStr ` fst ` set regs \<longrightarrow>
      create (registered regs) ty x y options
        = Inl (Error [Lit ''[ObjectRegistry] Unknown object type: "'', Val ty, Lit ''"'']) \<and>
      (\<forall>obj. create (registered regs) ty x y options \<noteq> Inr obj)) \<and>
   (get_prop ''type'' data = Inr ty \<and> ty \<notin> JStr ` fst ` set regs \<longrightarrow>
      deserialize (registered regs) data
        = Inl (Error [Lit ''[ObjectRegistry] Cannot deserialize unknown type: "'', Val ty,
                      Lit ''"''])) \<and>
   (map_of (rev regs) t = Some (cls, md) \<longrightarrow>
      create (registered regs) (JStr t) x y options
        = construct cls x y (if options = JUndefined then JObj [] else options) \<and>
      (get_prop ''type'' data = Inr (JStr t) \<longrightarrow>
         deserialize (registered regs) data = deserialize_static cls data))\<close>
proof (intro conjI impI allI)
  assume a: "ty \<notin> JStr ` fst ` set regs"
  show \<open>create (registered regs) ty x y options
        = Inl (Error [Lit ''[ObjectRegistry] Unknown object type: "'', Val ty, Lit ''"''])\<close>
    using never_registered [OF a] by (simp add: create_def)
  then show "create (registered regs) ty x y options \<noteq> Inr obj" for obj by simp
next
  assume a: "get_prop ''type'' data = Inr ty \<and> ty \<notin> JStr ` fst ` set regs"
  then show \<open>deserialize (registered regs) data
        = Inl (Error [Lit ''[ObjectRegistry] Cannot deserialize unknown type: "'', Val ty,
                      Lit ''"''])\<close>
    using never_registered [of ty regs] by (simp add: deserialize_def)
next
  assume a: "map_of (rev regs) t = Some (cls, md)"
  then show "create (registered regs) (JStr t) x y options
        = construct cls x y (if options = JUndefined then JObj [] else options)"
    by (simp add: create_def registry_get_def registered_lookup)
next
  assume a: "map_of (rev regs) t = Some (cls, md)" and b: "get_prop ''type'' data = Inr (JStr t)"
  then show "deserialize (registered regs) data = deserialize_static cls data"
    by (simp add: deserialize_def registry_get_def registered_lookup)
qed

theorem unknown_type_throws_witness:
  \<open>create (registered [(''probe'', probe_class, ball_metadata)]) (JStr ''nonexistent'')
      (JNum 0) (JNum 0) JUndefined
     = Inl (Error [Lit ''[ObjectRegistry] Unknown object type: "'', Val (JStr ''nonexistent''),
                   Lit ''"'']) \<and>
   deserialize (registered [(''probe'', probe_class, ball_metadata)])
      (JObj [(''type'', JStr ''laser''), (''x'', JNum 0)])
     = Inl (Error [Lit ''[ObjectRegistry] Cannot deserialize unknown type: "'',
                   Val (JStr ''laser''), Lit ''"'']) \<and>
   create (registered [(''probe'', probe_class, ball_metadata)]) (JStr ''probe'')
      (JNum 100) (JNum 200) JUndefined
     = Inr (JNum 100, JNum 200, JObj [])\<close>
proof -
  let ?regs = "[(''probe'', probe_class, ball_metadata)]"
  have n1: "JStr ''nonexistent'' \<notin> JStr ` fst ` set ?regs" by simp
  have n2: "JStr ''laser'' \<notin> JStr ` fst ` set ?regs" by simp
  have g: "get_prop ''type'' (JObj [(''type'', JStr ''laser''), (''x'', JNum 0)]) = Inr (JStr ''laser'')"
    by (simp add: get_prop_def js_prop_def)
  have m: "map_of (rev ?regs) ''probe'' = Some (probe_class, ball_metadata)" by simp
  note t1 = unknown_type_throws [of "JStr ''nonexistent''" ?regs "JNum 0" "JNum 0" JUndefined
      JNull "''probe''" "probe_class" ball_metadata]
  note t2 = unknown_type_throws [of "JStr ''laser''" ?regs "JNum 100" "JNum 200" JUndefined
      "JObj [(''type'', JStr ''laser''), (''x'', JNum 0)]" "''probe''" "probe_class" ball_metadata]
  have c1: \<open>create (registered ?regs) (JStr ''nonexistent'') (JNum 0) (JNum 0) JUndefined
     = Inl (Error [Lit ''[ObjectRegistry] Unknown object type: "'', Val (JStr ''nonexistent''),
                   Lit ''"''])\<close>
    using t1 n1 by blast
  have c2: \<open>deserialize (registered ?regs) (JObj [(''type'', JStr ''laser''), (''x'', JNum 0)])
     = Inl (Error [Lit ''[ObjectRegistry] Cannot deserialize unknown type: "'',
                   Val (JStr ''laser''), Lit ''"''])\<close>
    using t2 n2 g by blast
  have c3: "create (registered ?regs) (JStr ''probe'') (JNum 100) (JNum 200) JUndefined
     = Inr (JNum 100, JNum 200, JObj [])"
    using t2 m by (simp add: probe_class_def)
  show ?thesis using c1 c2 c3 by blast
qed

end
